theory Spec2Isabelle
  imports Main
begin

text \<open>
  A model of the scheduling and delivery engine of the bot (bot.py) and of its users table
  (database/__init__.py): the deletion ledger as the SQL statements act on it, the
  computation of the next weekly occurrence on wall-clock time, the delivery of one post to
  one channel with its media and its clean-up, and the two workers. The channel client,
  the network, the converters, the file system and the clock are outside the program:
  they appear as an environment that answers each interaction, and a state that records
  what the program did to them.
\<close>

section \<open>The deletion ledger (table \<open>deletions\<close> of bot.py)\<close>

text \<open>
  \<^verbatim>\<open>CREATE TABLE IF NOT EXISTS deletions (id INTEGER PRIMARY KEY AUTOINCREMENT,
  chat_id INTEGER NOT NULL, message_id INTEGER NOT NULL, delete_at INTEGER NOT NULL)\<close>

  A row is a record of the four columns; the column \<open>id\<close> is called \<open>row_id\<close>, the name
  bot.py gives it where it reads it back. The table is the list of its rows in insertion
  order, together with the counter that SQLite keeps in \<open>sqlite_sequence\<close> for an
  AUTOINCREMENT key (the largest key ever handed out). Column values are SQLite INTEGERs,
  modelled as \<open>int\<close>; the 64-bit limit of the storage class is not reached by the keys,
  chat ids, message ids and unix timestamps the program stores.
\<close>

record deletion =
  row_id :: int
  chat_id :: int
  message_id :: int
  delete_at :: int

record ledger =
  rows :: "deletion list"
  seq :: int

definition db_init :: ledger where
  "db_init = \<lparr>rows = [], seq = 0\<rparr>"

text \<open>AUTOINCREMENT: the new key is one more than the largest key that ever existed.\<close>

definition next_row_id :: "ledger \<Rightarrow> int" where
  "next_row_id db = foldr max (map row_id (rows db)) (seq db) + 1"

text \<open>\<^verbatim>\<open>INSERT INTO deletions (chat_id, message_id, delete_at) VALUES (?, ?, ?)\<close>\<close>

definition db_schedule_deletion :: "int \<Rightarrow> int \<Rightarrow> int \<Rightarrow> ledger \<Rightarrow> ledger" where
  "db_schedule_deletion cid mid delete_at_ts db =
     \<lparr>rows = rows db @
        [\<lparr>row_id = next_row_id db, chat_id = cid, message_id = mid, delete_at = delete_at_ts\<rparr>],
      seq = next_row_id db\<rparr>"

text \<open>
  \<^verbatim>\<open>SELECT id, chat_id, message_id FROM deletions WHERE delete_at <= ? ORDER BY id ASC LIMIT ?\<close>

  SQLite reads a negative LIMIT as "no upper bound on the number of rows".
\<close>

definition db_fetch_due_deletions :: "int \<Rightarrow> int \<Rightarrow> ledger \<Rightarrow> (int \<times> int \<times> int) list" where
  "db_fetch_due_deletions now_ts limit db =
     (let due = sort_key row_id (filter (\<lambda>r. delete_at r \<le> now_ts) (rows db));
          capped = (if limit < 0 then due else take (nat limit) due)
      in map (\<lambda>r. (row_id r, chat_id r, message_id r)) capped)"

text \<open>\<^verbatim>\<open>DELETE FROM deletions WHERE id=?\<close>\<close>

definition db_delete_deletion_row :: "int \<Rightarrow> ledger \<Rightarrow> ledger" where
  "db_delete_deletion_row rid db = db\<lparr>rows := filter (\<lambda>r. row_id r \<noteq> rid) (rows db)\<rparr>"

text \<open>The primary key: no two rows share an \<open>id\<close>.\<close>

definition primary_key :: "ledger \<Rightarrow> bool" where
  "primary_key db = distinct (map row_id (rows db))"

section \<open>The users table (database/__init__.py)\<close>

text \<open>
  \<open>id\<close> is an INTEGER PRIMARY KEY without AUTOINCREMENT: SQLite gives a new row one more
  than the largest key in the table, and 1 in an empty table. The column is called
  \<open>id_col\<close> here, \<open>id\<close> being the identity function of HOL.
\<close>

record user =
  id_col :: int
  user_id :: int
  first_name :: string
  username :: "string option"

definition new_user_id :: "user list \<Rightarrow> int" where
  "new_user_id us = (if us = [] then 1 else Max (set (map id_col us)) + 1)"

text \<open>
  \<^verbatim>\<open>user = session.query(cls).filter(cls.user_id == user_id).first()
  if not user:
      session.add(cls(user_id,first_name,username,))
      session.commit()\<close>
\<close>

definition add_user_to_db :: "int \<Rightarrow> string \<Rightarrow> string option \<Rightarrow> user list \<Rightarrow> user list" where
  "add_user_to_db uid fname uname us =
     (case find (\<lambda>u. user_id u = uid) us of
        None \<Rightarrow> us @ [\<lparr>id_col = new_user_id us, user_id = uid, first_name = fname, username = uname\<rparr>]
      | Some u \<Rightarrow> us)"

section \<open>Wall-clock time (\<open>datetime\<close>, \<open>ZoneInfo\<close>)\<close>

text \<open>
  An instant is a number of microseconds since the unix epoch. A time zone is what
  \<open>ZoneInfo\<close> is consulted for: the UTC offset (in seconds) in force at an instant, given
  in unix seconds (\<open>fromutc\<close>, behind \<open>datetime.now(tz)\<close>), and the UTC offset of a wall-clock
  time with \<open>fold = 0\<close>, given in wall seconds since 1970-01-01T00:00 local
  (\<open>utcoffset\<close>, behind \<open>.timestamp()\<close>).

  An aware datetime of the configured zone is its wall-clock fields. The date is kept as
  its proleptic Gregorian ordinal (\<open>date.toordinal()\<close>: day 1 is 0001-01-01, a Monday;
  1970-01-01 is day 719163), which is all that \<open>weekday()\<close> and \<open>timedelta(days=...)\<close>
  look at. Python's limit of the year 9999 is not modelled.
\<close>

record zone =
  utcoffset_at :: "int \<Rightarrow> int"
  utcoffset_wall :: "int \<Rightarrow> int"

record datetime =
  ordinal :: int
  hour :: int
  minute :: int
  second :: int
  microsecond :: int

datatype py_error = ValueError

definition datetime_of_wall :: "int \<Rightarrow> datetime" where
  "datetime_of_wall us =
     \<lparr>ordinal = 719163 + us div 86400000000,
      hour = us mod 86400000000 div 3600000000,
      minute = us mod 3600000000 div 60000000,
      second = us mod 60000000 div 1000000,
      microsecond = us mod 1000000\<rparr>"

definition wall_of_datetime :: "datetime \<Rightarrow> int" where
  "wall_of_datetime d =
     ((ordinal d - 719163) * 86400 + hour d * 3600 + minute d * 60 + second d) * 1000000
       + microsecond d"

text \<open>\<open>datetime.now(tz)\<close>, the clock showing the instant \<open>t\<close>.\<close>

definition datetime_now :: "zone \<Rightarrow> int \<Rightarrow> datetime" where
  "datetime_now tz t = datetime_of_wall (t + utcoffset_at tz (t div 1000000) * 1000000)"

text \<open>\<open>weekday()\<close>: Monday is 0.\<close>

definition weekday :: "datetime \<Rightarrow> int" where
  "weekday d = (ordinal d + 6) mod 7"

text \<open>\<open>d + timedelta(days=n)\<close>: arithmetic on the wall-clock fields, the zone kept.\<close>

definition plus_days :: "datetime \<Rightarrow> int \<Rightarrow> datetime" where
  "plus_days d n = d\<lparr>ordinal := ordinal d + n\<rparr>"

text \<open>\<open>d.replace(hour=h, minute=m, second=0, microsecond=0)\<close>\<close>

definition replace_time :: "datetime \<Rightarrow> int \<Rightarrow> int \<Rightarrow> py_error + datetime" where
  "replace_time d h m =
     (if 0 \<le> h \<and> h \<le> 23 \<and> 0 \<le> m \<and> m \<le> 59
      then Inr (d\<lparr>hour := h, minute := m, second := 0, microsecond := 0\<rparr>)
      else Inl ValueError)"

text \<open>
  \<open>_seconds_until_next_weekly\<close>, with the instant \<open>t\<close> at which it reads the clock.
  \<open>target <= now\<close> and \<open>target - now\<close> are between two aware datetimes of the same
  \<open>tzinfo\<close>: Python then compares and subtracts the wall-clock fields and ignores the
  offsets. The result is the timedelta in microseconds; \<open>total_seconds()\<close> is that number
  divided by \<open>10^6\<close>, as a float.
\<close>

definition seconds_until_next_weekly :: "int \<Rightarrow> int \<Rightarrow> int \<Rightarrow> zone \<Rightarrow> int \<Rightarrow> py_error + int" where
  "seconds_until_next_weekly weekday_idx h m tz t =
     (let now = datetime_now tz t;
          days_ahead = (weekday_idx - weekday now) mod 7
      in case replace_time (plus_days now days_ahead) h m of
           Inl e \<Rightarrow> Inl e
         | Inr target \<Rightarrow>
             (let target' = (if wall_of_datetime target \<le> wall_of_datetime now
                             then plus_days target 7 else target)
              in Inr (wall_of_datetime target' - wall_of_datetime now)))"

text \<open>
  \<open>_autopost_worker\<close> sleeps \<open>max(1, wait_s)\<close> seconds of elapsed time and then sends:
  the instant at which a post scheduled at \<open>t\<close> goes out.
\<close>

definition wake_instant :: "int \<Rightarrow> int \<Rightarrow> int" where
  "wake_instant t wait_us = t + max 1000000 wait_us"

text \<open>
  \<open>int(x)\<close> of a float number of seconds, given in microseconds: truncation towards
  zero. (The float is exact enough for that at the timestamps of this era: a number of
  microseconds below \<open>2^53\<close>.)
\<close>

definition int_of_seconds :: "int \<Rightarrow> int" where
  "int_of_seconds us = (if 0 \<le> us then us div 1000000 else - ((- us) div 1000000))"

text \<open>\<open>d.timestamp()\<close> of an aware datetime, in microseconds.\<close>

definition timestamp :: "zone \<Rightarrow> datetime \<Rightarrow> int" where
  "timestamp tz d =
     wall_of_datetime d - utcoffset_wall tz (wall_of_datetime d div 1000000) * 1000000"

text \<open>\<open>int((datetime.now(tz) + timedelta(days=config.AUTO_DELETE_AFTER_DAYS)).timestamp())\<close>\<close>

definition delete_at_of :: "zone \<Rightarrow> int \<Rightarrow> int \<Rightarrow> int" where
  "delete_at_of tz days t = int_of_seconds (timestamp tz (plus_days (datetime_now tz t) days))"

text \<open>
  Europe/Paris through 2025: UTC+1, and UTC+2 from 2025-03-30T01:00Z (unix 1743296400)
  to 2025-10-26T01:00Z (unix 1761440400). A wall-clock time in the gap of March or the
  overlap of October has, with \<open>fold = 0\<close>, the offset in force before the change.
\<close>

definition europe_paris :: zone where
  "europe_paris =
     \<lparr>utcoffset_at = (\<lambda>s. if s < 1743296400 then 3600 else if s < 1761440400 then 7200 else 3600),
      utcoffset_wall = (\<lambda>l. if l < 1743303600 then 3600 else if l < 1761447600 then 7200 else 3600)\<rparr>"

section \<open>Strings and paths\<close>

definition startswith :: "string \<Rightarrow> string \<Rightarrow> bool" where
  "startswith s p = (take (length p) s = p)"

text \<open>\<open>s.startswith(("http://", "https://"))\<close>\<close>

definition is_url :: "string \<Rightarrow> bool" where
  "is_url s = (startswith s ''http://'' \<or> startswith s ''https://'')"

text \<open>\<open>os.path.isabs\<close> of posixpath.\<close>

definition isabs :: "string \<Rightarrow> bool" where
  "isabs p = startswith p ''/''"

text \<open>\<open>path.rsplit(".", 1)[0]\<close>: the path up to its last dot, all of it when it has none.\<close>

definition rsplit_dot :: "string \<Rightarrow> string" where
  "rsplit_dot p =
     (if CHR ''.'' \<in> set p then rev (tl (dropWhile (\<lambda>c. c \<noteq> CHR ''.'') (rev p))) else p)"

text \<open>\<open>str.lower()\<close> on ASCII text.\<close>

definition lower :: "string \<Rightarrow> string" where
  "lower s =
     map (\<lambda>c. case map_of (zip ''ABCDEFGHIJKLMNOPQRSTUVWXYZ'' ''abcdefghijklmnopqrstuvwxyz'') c of
                 None \<Rightarrow> c | Some l \<Rightarrow> l) s"

text \<open>\<open>s.lstrip("-")\<close> and \<open>str.isdigit()\<close> (ASCII digits), \<open>int(s)\<close> for such a string.\<close>

definition lstrip_minus :: "string \<Rightarrow> string" where
  "lstrip_minus s = dropWhile (\<lambda>c. c = CHR ''-'') s"

definition isdigit :: "string \<Rightarrow> bool" where
  "isdigit s = (s \<noteq> [] \<and> list_all (\<lambda>c. c \<in> set ''0123456789'') s)"

definition digit_value :: "char \<Rightarrow> int" where
  "digit_value c = int (length (takeWhile (\<lambda>d. d \<noteq> c) ''0123456789''))"

text \<open>
  \<open>int(s)\<close> where \<open>s\<close> is a run of minus signs before a run of digits: a ValueError (here
  \<open>None\<close>) for two signs or more, and for more than 4300 digits (the interpreter's limit on
  integer string conversion).
\<close>

definition int_of_str :: "string \<Rightarrow> int option" where
  "int_of_str s =
     (let digits = lstrip_minus s; signs = length s - length digits
      in if 1 < signs \<or> 4300 < length digits then None
         else (let v = foldl (\<lambda>a c. 10 * a + digit_value c) 0 digits
               in Some (if signs = 1 then - v else v)))"

section \<open>The channel client and the world around a delivery\<close>

text \<open>
  The exception a call of the channel client raises, by the first handler of
  \<open>_send_autopost_to_chat\<close> that takes it: \<open>ChatAdminRequired\<close>, any other \<open>BadRequest\<close>,
  any other \<open>RPCError\<close>, any other \<open>Exception\<close>.
\<close>

datatype exn = ChatAdminRequired | BadRequest | RPCError | OtherException

text \<open>A channel reference of \<open>config.CHANNEL_IDS\<close>: \<open>int | str\<close>.\<close>

datatype chat_ref = IntRef int | StrRef string

type_synonym markup = "(string \<times> string) list list option"

text \<open>
  The calls bot.py makes on \<open>app_1\<close>, with their arguments: chat id, then text or media
  path, caption and reply markup.
\<close>

datatype client_call =
    GetChat string
  | SendMessage int string markup
  | SendPhoto int "string option" "string option" markup
  | SendVideo int "string option" "string option" markup
  | SendVoice int "string option" "string option" markup
  | SendDocument int "string option" "string option" markup
  | DeleteMessages int int

text \<open>A call raises, or returns: the \<open>id\<close> of the chat or of the message sent.\<close>

datatype client_reply = Raises exn | Returns int

fun is_send :: "client_call \<Rightarrow> bool" where
  "is_send (GetChat _) = False"
| "is_send (DeleteMessages _ _) = False"
| "is_send _ = True"

text \<open>What \<open>urlopen\<close> and the write to the \<open>mkstemp\<close> file come to.\<close>

datatype download =
    UrlError
  | TempBroken string
  | TempWritten string nat

text \<open>
  \<open>UrlError\<close>: an exception before \<open>mkstemp\<close>. \<open>TempBroken p\<close>: \<open>mkstemp\<close> made \<open>p\<close>, then
  reading or writing raised. \<open>TempWritten p n\<close>: the body, \<open>n\<close> bytes, was written to \<open>p\<close>.
\<close>

text \<open>
  What Pillow does in \<open>_convert_image_if_needed\<close>: nothing to do (or a HEIF format with
  no decoder), a transcoding to \<open>.jpg\<close>, a downscaling to \<open>_tg.jpg\<close>, an exception.
\<close>

datatype image_result = Unchanged | Transcoded | Clamped | ImageError

text \<open>
  \<open>_convert_video_if_needed\<close>: no ffmpeg on the path, a successful run, a failed run (which
  may have left the output file behind).
\<close>

datatype video_result = NoFfmpeg | Encoded | EncodeFailed bool

datatype message =
    ResolveImpossible chat_ref
  | ChatResolutionKO chat_ref
  | MediaNotFound string
  | NoRights int
  | BadRequestIn int
  | RPCErrorIn int
  | UnexpectedIn int
  | DownloadTooSmall string
  | DownloadKO string
  | ImageConversionIgnored
  | VideoConversionFailed
  | NoChannelIds
  | SentIn string nat
  | ToDelete nat
  | AutodeleteFailed int int

datatype level = INFO | WARNING

text \<open>
  The environment: the channel client, the network, the converters and the clock answer
  by the number of the interaction (\<open>tick\<close>), so that the same request can be answered
  differently later; \<open>protected\<close> are the paths \<open>os.remove\<close> raises on; the rest is config.py.
\<close>

record env =
  client :: "nat \<Rightarrow> client_call \<Rightarrow> client_reply"
  urlopen :: "nat \<Rightarrow> string \<Rightarrow> download"
  pillow :: "nat \<Rightarrow> string \<Rightarrow> image_result"
  ffmpeg :: "nat \<Rightarrow> string \<Rightarrow> video_result"
  clock :: "nat \<Rightarrow> int"
  protected :: "string set"
  TIMEZONE :: zone
  CHANNEL_IDS :: "chat_ref list"
  AUTO_DELETE_AFTER_DAYS :: int

text \<open>
  The state: the count of interactions so far, the calls made on the channel client with
  their replies, the log, the files on disk, and the ledger.
\<close>

record world =
  tick :: nat
  calls :: "(client_call \<times> client_reply) list"
  logs :: "(level \<times> message) list"
  files :: "string set"
  db :: ledger

definition logger_warning :: "message \<Rightarrow> world \<Rightarrow> world" where
  "logger_warning m w = w\<lparr>logs := logs w @ [(WARNING, m)]\<rparr>"

definition logger_info :: "message \<Rightarrow> world \<Rightarrow> world" where
  "logger_info m w = w\<lparr>logs := logs w @ [(INFO, m)]\<rparr>"

definition call_client :: "env \<Rightarrow> client_call \<Rightarrow> world \<Rightarrow> client_reply \<times> world" where
  "call_client e c w =
     (let r = client e (tick w) c
      in (r, w\<lparr>tick := Suc (tick w), calls := calls w @ [(c, r)]\<rparr>))"

text \<open>\<open>_resolve_chat_id\<close>\<close>

definition resolve_chat_id :: "env \<Rightarrow> chat_ref \<Rightarrow> world \<Rightarrow> int option \<times> world" where
  "resolve_chat_id e chat_ref w =
     (case chat_ref of
        IntRef n \<Rightarrow> (Some n, w)
      | StrRef s \<Rightarrow>
          if isdigit (lstrip_minus s)
          then (case int_of_str s of
                  Some n \<Rightarrow> (Some n, w)
                | None \<Rightarrow> (None, logger_warning (ResolveImpossible chat_ref) w))
          else (case call_client e (GetChat s) w of
                  (Returns chat, w') \<Rightarrow> (Some chat, w')
                | (Raises x, w') \<Rightarrow> (None, logger_warning (ResolveImpossible chat_ref) w')))"

text \<open>\<open>_download_if_url\<close>\<close>

definition download_if_url :: "env \<Rightarrow> string option \<Rightarrow> world \<Rightarrow> string option \<times> world" where
  "download_if_url e maybe_url w =
     (case maybe_url of
        None \<Rightarrow> (None, w)
      | Some s \<Rightarrow>
          if s = [] then (None, w)
          else if is_url s
          then (case urlopen e (tick w) s of
                  UrlError \<Rightarrow> (None, logger_warning (DownloadKO s) (w\<lparr>tick := Suc (tick w)\<rparr>))
                | TempBroken temp_path \<Rightarrow>
                    (None, logger_warning (DownloadKO s)
                       (w\<lparr>tick := Suc (tick w), files := insert temp_path (files w)\<rparr>))
                | TempWritten temp_path n \<Rightarrow>
                    (let w' = w\<lparr>tick := Suc (tick w), files := insert temp_path (files w)\<rparr>
                     in if n < 1024 then (None, logger_warning (DownloadTooSmall s) w')
                        else (Some temp_path, w')))
          else (Some s, w))"

text \<open>\<open>_convert_image_if_needed\<close>\<close>

definition convert_image_if_needed :: "env \<Rightarrow> string \<Rightarrow> world \<Rightarrow> string \<times> world" where
  "convert_image_if_needed e path w =
     (let w' = w\<lparr>tick := Suc (tick w)\<rparr>
      in case pillow e (tick w) path of
           Unchanged \<Rightarrow> (path, w')
         | Transcoded \<Rightarrow>
             (rsplit_dot path @ ''.jpg'', w'\<lparr>files := insert (rsplit_dot path @ ''.jpg'') (files w')\<rparr>)
         | Clamped \<Rightarrow>
             (rsplit_dot path @ ''_tg.jpg'',
              w'\<lparr>files := insert (rsplit_dot path @ ''_tg.jpg'') (files w')\<rparr>)
         | ImageError \<Rightarrow> (path, logger_warning ImageConversionIgnored w'))"

text \<open>\<open>_convert_video_if_needed\<close>\<close>

definition convert_video_if_needed :: "env \<Rightarrow> string \<Rightarrow> world \<Rightarrow> string \<times> world" where
  "convert_video_if_needed e path w =
     (let w' = w\<lparr>tick := Suc (tick w)\<rparr>; out = rsplit_dot path @ ''_tg.mp4''
      in case ffmpeg e (tick w) path of
           NoFfmpeg \<Rightarrow> (path, w')
         | Encoded \<Rightarrow> (out, w'\<lparr>files := insert out (files w')\<rparr>)
         | EncodeFailed left \<Rightarrow>
             (path, logger_warning VideoConversionFailed
                      (if left then w'\<lparr>files := insert out (files w')\<rparr> else w')))"

text \<open>\<open>_kb\<close>: one row per button, \<open>None\<close> for no buttons.\<close>

definition kb :: "(string \<times> string) list option \<Rightarrow> markup" where
  "kb buttons =
     (case buttons of
        None \<Rightarrow> None
      | Some bs \<Rightarrow> if bs = [] then None else Some (map (\<lambda>b. [b]) bs))"

text \<open>
  An entry of \<open>MESSAGES\<close>. The fields are the keys of the dict, prefixed (\<open>text\<close> and
  \<open>type\<close> cannot name a field here).
\<close>

record post_cfg =
  cfg_name :: string
  cfg_schedule_var :: string
  cfg_type :: "string option"
  cfg_media :: "string option"
  cfg_text :: "string option"
  cfg_buttons :: "(string \<times> string) list option"

text \<open>\<open>x or d\<close> on an optional string, and \<open>text or None\<close>.\<close>

definition str_or :: "string option \<Rightarrow> string \<Rightarrow> string" where
  "str_or x d = (case x of None \<Rightarrow> d | Some s \<Rightarrow> if s = [] then d else s)"

definition or_None :: "string \<Rightarrow> string option" where
  "or_None s = (if s = [] then None else Some s)"

text \<open>
  The first part of the \<open>try\<close> block: the media of a photo, video, voice or document post.
  The result is \<open>Aborted\<close> at \<open>return None\<close>, else the \<open>media_path\<close> to send; with it
  \<open>conv_path\<close> and \<open>temp_path\<close> as the \<open>finally\<close> clause will find them.
\<close>

datatype prepared = Aborted | Ready "string option"

definition prepare_media ::
  "env \<Rightarrow> post_cfg \<Rightarrow> string \<Rightarrow> world \<Rightarrow> prepared \<times> string option \<times> string option \<times> world" where
  "prepare_media e post ptype w =
     (if ptype \<in> set [''photo'', ''video'', ''voice'', ''document'']
      then (case download_if_url e (cfg_media post) w of
              (None, w1) \<Rightarrow> (Aborted, None, None, logger_warning (MediaNotFound (cfg_name post)) w1)
            | (Some media_path, w1) \<Rightarrow>
                if media_path = []
                then (Aborted, None, None, logger_warning (MediaNotFound (cfg_name post)) w1)
                else (let temp_path = (if isabs media_path then Some media_path else None)
                      in if ptype = ''photo''
                         then (case convert_image_if_needed e media_path w1 of
                                 (conv_path, w2) \<Rightarrow>
                                   (Ready (Some (str_or (Some conv_path) media_path)),
                                    Some conv_path, temp_path, w2))
                         else if ptype = ''video''
                         then (case convert_video_if_needed e media_path w1 of
                                 (conv_path, w2) \<Rightarrow>
                                   (Ready (Some (str_or (Some conv_path) media_path)),
                                    Some conv_path, temp_path, w2))
                         else (Ready (Some media_path), None, temp_path, w1)))
      else (Ready None, None, None, w))"

text \<open>The call of the channel client that matches the type of the post.\<close>

definition dispatch_call :: "string \<Rightarrow> int \<Rightarrow> string option \<Rightarrow> string \<Rightarrow> markup \<Rightarrow> client_call" where
  "dispatch_call ptype chat media_path txt mk =
     (if ptype = ''text'' then SendMessage chat (str_or (Some txt) '' '') mk
      else if ptype = ''photo'' then SendPhoto chat media_path (or_None txt) mk
      else if ptype = ''video'' then SendVideo chat media_path (or_None txt) mk
      else if ptype = ''voice'' then SendVoice chat media_path (or_None txt) mk
      else if ptype = ''document'' then SendDocument chat media_path (or_None txt) mk
      else SendMessage chat (str_or (Some txt) '' '') mk)"

text \<open>The four \<open>except\<close> clauses: each logs a warning.\<close>

fun handler :: "exn \<Rightarrow> int \<Rightarrow> message" where
  "handler ChatAdminRequired chat = NoRights chat"
| "handler BadRequest chat = BadRequestIn chat"
| "handler RPCError chat = RPCErrorIn chat"
| "handler OtherException chat = UnexpectedIn chat"

text \<open>
  The \<open>finally\<close> clause: \<open>os.remove\<close> of \<open>conv_path\<close>, then of \<open>temp_path\<close>, where the path is
  set and exists; an exception of \<open>os.remove\<close> is swallowed.
\<close>

definition os_remove :: "env \<Rightarrow> string \<Rightarrow> world \<Rightarrow> world" where
  "os_remove e p w = (if p \<in> protected e then w else w\<lparr>files := files w - {p}\<rparr>)"

fun cleanup :: "env \<Rightarrow> string option list \<Rightarrow> world \<Rightarrow> world" where
  "cleanup e [] w = w"
| "cleanup e (None # ps) w = cleanup e ps w"
| "cleanup e (Some p # ps) w =
     cleanup e ps (if p \<noteq> [] \<and> p \<in> files w then os_remove e p w else w)"

text \<open>\<open>_send_autopost_to_chat\<close>\<close>

definition send_autopost_to_chat :: "env \<Rightarrow> chat_ref \<Rightarrow> post_cfg \<Rightarrow> world \<Rightarrow> int option \<times> world" where
  "send_autopost_to_chat e chat_ref post w =
     (let ptype = lower (str_or (cfg_type post) ''text'');
          txt = str_or (cfg_text post) [];
          mk = kb (cfg_buttons post)
      in case resolve_chat_id e chat_ref w of
           (None, w1) \<Rightarrow> (None, logger_warning (ChatResolutionKO chat_ref) w1)
         | (Some chat, w1) \<Rightarrow>
             (case prepare_media e post ptype w1 of
                (Aborted, conv_path, temp_path, w2) \<Rightarrow>
                  (None, cleanup e [conv_path, temp_path] w2)
              | (Ready media_path, conv_path, temp_path, w2) \<Rightarrow>
                  (case call_client e (dispatch_call ptype chat media_path txt mk) w2 of
                     (Returns mid, w3) \<Rightarrow> (Some mid, cleanup e [conv_path, temp_path] w3)
                   | (Raises x, w3) \<Rightarrow>
                       (None, cleanup e [conv_path, temp_path]
                                (logger_warning (handler x chat) w3)))))"

section \<open>The workers\<close>

text \<open>
  The body of the loop over \<open>config.CHANNEL_IDS\<close>, the same in \<open>_autopost_worker\<close> and in
  \<open>force_post_index_handler\<close>; the state carries the counter \<open>sent\<close>.
  \<^verbatim>\<open>
  mid = await _send_autopost_to_chat(raw_ref, post_cfg)
  if mid:
      delete_at = int((datetime.now(tz) + timedelta(days=config.AUTO_DELETE_AFTER_DAYS)).timestamp())
      chat_id = await _resolve_chat_id(raw_ref)
      if chat_id is not None:
          db_schedule_deletion(chat_id, mid, delete_at)
      sent += 1\<close>
\<close>

definition post_to_channel :: "env \<Rightarrow> post_cfg \<Rightarrow> chat_ref \<Rightarrow> nat \<times> world \<Rightarrow> nat \<times> world" where
  "post_to_channel e post raw_ref sw =
     (case sw of (sent, w) \<Rightarrow>
        (case send_autopost_to_chat e raw_ref post w of
           (None, w1) \<Rightarrow> (sent, w1)
         | (Some mid, w1) \<Rightarrow>
             if mid = 0 then (sent, w1)
             else (let delete_at = delete_at_of (TIMEZONE e) (AUTO_DELETE_AFTER_DAYS e) (clock e (tick w1))
                   in case resolve_chat_id e raw_ref (w1\<lparr>tick := Suc (tick w1)\<rparr>) of
                        (None, w2) \<Rightarrow> (Suc sent, w2)
                      | (Some chat, w2) \<Rightarrow>
                          (Suc sent, w2\<lparr>db := db_schedule_deletion chat mid delete_at (db w2)\<rparr>))))"

text \<open>One firing of \<open>_autopost_worker\<close>, after its sleep.\<close>

definition autopost_fire :: "env \<Rightarrow> post_cfg \<Rightarrow> world \<Rightarrow> world" where
  "autopost_fire e post w =
     (if CHANNEL_IDS e = [] then logger_info NoChannelIds w
      else (case foldl (\<lambda>sw raw_ref. post_to_channel e post raw_ref sw) (0, w) (CHANNEL_IDS e) of
              (sent, w') \<Rightarrow> logger_info (SentIn (cfg_name post) sent) w'))"

text \<open>
  The loop over the due rows in \<open>_autodelete_worker\<close>:
  \<^verbatim>\<open>
  try: await app_1.delete_messages(chat_id, message_id)
  except Exception as e: logger.warning(...)
  finally: db_delete_deletion_row(row_id)\<close>
\<close>

fun retract :: "env \<Rightarrow> (int \<times> int \<times> int) list \<Rightarrow> world \<Rightarrow> world" where
  "retract e [] w = w"
| "retract e ((rid, chat, mid) # rest) w =
     (case call_client e (DeleteMessages chat mid) w of
        (Returns n, w1) \<Rightarrow> retract e rest (w1\<lparr>db := db_delete_deletion_row rid (db w1)\<rparr>)
      | (Raises x, w1) \<Rightarrow>
          (let w2 = logger_warning (AutodeleteFailed chat mid) w1
           in retract e rest (w2\<lparr>db := db_delete_deletion_row rid (db w2)\<rparr>)))"

text \<open>One poll of \<open>_autodelete_worker\<close>: the body of its \<open>while True\<close>, up to the sleep.\<close>

definition autodelete_poll :: "env \<Rightarrow> world \<Rightarrow> world" where
  "autodelete_poll e w =
     (let now_ts = int_of_seconds (clock e (tick w));
          w1 = w\<lparr>tick := Suc (tick w)\<rparr>;
          due = db_fetch_due_deletions now_ts 200 (db w1);
          w2 = (if due = [] then w1 else logger_info (ToDelete (length due)) w1)
      in retract e due w2)"

text \<open>
  Every key in the table is at most the counter of \<open>sqlite_sequence\<close>: what AUTOINCREMENT
  maintains, from the empty table on.
\<close>

definition seq_bounds :: "ledger \<Rightarrow> bool" where
  "seq_bounds tbl = list_all (\<lambda>r. row_id r \<le> seq tbl) (rows tbl)"

text \<open>
  The statements that reach the ledger after a poll: the inserts of deliveries and the
  deletes of later polls, in any order.
\<close>

datatype ledger_op = Schedule int int int | Delete int

fun ledger_ops :: "ledger_op list \<Rightarrow> ledger \<Rightarrow> ledger" where
  "ledger_ops [] tbl = tbl"
| "ledger_ops (Schedule c m d # ops) tbl = ledger_ops ops (db_schedule_deletion c m d tbl)"
| "ledger_ops (Delete i # ops) tbl = ledger_ops ops (db_delete_deletion_row i tbl)"


section \<open>Concrete inputs\<close>

text \<open>A ledger after two deliveries: row 1 is due at 100, row 2 at 900.\<close>

definition ledger_two :: ledger where
  "ledger_two = db_schedule_deletion (-1002) 41 900 (db_schedule_deletion (-1001) 40 100 db_init)"

text \<open>A users table after one registration.\<close>

definition users_one :: "user list" where
  "users_one = add_user_to_db 42 ''Lisa'' (Some ''lisa'') []"

text \<open>
  An environment whose channel client refuses every call, and a world holding the ledger
  of two rows; the clock reads 1000 seconds, when both rows are due.
\<close>

definition refusing_client :: env where
  "refusing_client =
     \<lparr>client = (\<lambda>n c. Raises RPCError), urlopen = (\<lambda>n u. UrlError),
      pillow = (\<lambda>n p. Unchanged), ffmpeg = (\<lambda>n p. NoFfmpeg),
      clock = (\<lambda>n. 1000000000), protected = {},
      TIMEZONE = europe_paris, CHANNEL_IDS = [IntRef (- 1001)], AUTO_DELETE_AFTER_DAYS = 7\<rparr>"

definition world_two :: world where
  "world_two = \<lparr>tick = 0, calls = [], logs = [], files = {}, db = ledger_two\<rparr>"


text \<open>
  A world with nothing on disk and an empty ledger; three entries of \<open>MESSAGES\<close> (\<open>post1\<close>,
  \<open>post4\<close>, and \<open>post4\<close> with a local file and with no media); a world that holds the local
  file.
\<close>

definition world_empty :: world where
  "world_empty = \<lparr>tick = 0, calls = [], logs = [], files = {}, db = db_init\<rparr>"

definition post_text :: post_cfg where
  "post_text =
     \<lparr>cfg_name = ''post1'', cfg_schedule_var = ''POST1_SCHEDULE'', cfg_type = Some ''text'',
      cfg_media = None, cfg_text = Some ''Coucou'', cfg_buttons = Some []\<rparr>"

definition post_photo_url :: post_cfg where
  "post_photo_url =
     \<lparr>cfg_name = ''post4'', cfg_schedule_var = ''POST4_SCHEDULE'', cfg_type = Some ''photo'',
      cfg_media = Some ''http://my-privatelink.com/wp-content/uploads/2025/12/IMG_7602.jpg'',
      cfg_text = Some ''Ne me fait pas attendre...'', cfg_buttons = Some []\<rparr>"

definition post_photo_local :: post_cfg where
  "post_photo_local = post_photo_url\<lparr>cfg_media := Some ''/srv/media/IMG_7602.jpg''\<rparr>"

definition post_photo_missing :: post_cfg where
  "post_photo_missing = post_photo_url\<lparr>cfg_media := None\<rparr>"

text \<open>
  Environments. \<open>calm\<close>: every call of the channel client succeeds, downloads are 200 kB.
  \<open>small_body\<close>: the server answers with 512 bytes. \<open>flaky_lookup\<close>: \<open>get_chat\<close> succeeds at
  the first interaction and fails afterwards.
\<close>

definition calm :: env where
  "calm =
     \<lparr>client = (\<lambda>n c. case c of GetChat s \<Rightarrow> Returns (- 1001)
                          | DeleteMessages chat mid \<Rightarrow> Returns 1
                          | _ \<Rightarrow> Returns 77),
      urlopen = (\<lambda>n u. TempWritten ''/tmp/ap_dl_k3x9.jpg'' 204800),
      pillow = (\<lambda>n p. Unchanged), ffmpeg = (\<lambda>n p. NoFfmpeg),
      clock = (\<lambda>n. 1743246000000000), protected = {},
      TIMEZONE = europe_paris, CHANNEL_IDS = [IntRef (- 1001)], AUTO_DELETE_AFTER_DAYS = 7\<rparr>"

definition small_body :: env where
  "small_body = calm\<lparr>urlopen := (\<lambda>n u. TempWritten ''/tmp/ap_dl_k3x9.jpg'' 512)\<rparr>"

definition flaky_lookup :: env where
  "flaky_lookup =
     calm\<lparr>client := (\<lambda>n c. case c of
                          GetChat s \<Rightarrow> if n = 0 then Returns (- 1001) else Raises RPCError
                        | DeleteMessages chat mid \<Rightarrow> Returns 1
                        | _ \<Rightarrow> Returns 77)\<rparr>"

definition world_with_file :: world where
  "world_with_file = world_empty\<lparr>files := {''/srv/media/IMG_7602.jpg''}\<rparr>"

section \<open>Properties of the ledger\<close>

lemma foldr_max_ge: "x \<in> set xs \<Longrightarrow> x \<le> foldr max xs (b::int)"
  by (induction xs) auto

lemma next_row_id_fresh: "r \<in> set (rows tbl) \<Longrightarrow> row_id r < next_row_id tbl"
  using foldr_max_ge [of "row_id r" "map row_id (rows tbl)" "seq tbl"]
  by (simp add: next_row_id_def)

lemma primary_key_init: "primary_key db_init"
  by (simp add: primary_key_def db_init_def)

lemma primary_key_schedule:
  "primary_key tbl \<Longrightarrow> primary_key (db_schedule_deletion c m d tbl)"
  by (auto simp: primary_key_def db_schedule_deletion_def dest: next_row_id_fresh)

lemma primary_key_delete:
  "primary_key tbl \<Longrightarrow> primary_key (db_delete_deletion_row i tbl)"
  by (simp add: primary_key_def db_delete_deletion_row_def distinct_map_filter)

lemma primary_key_inj: "primary_key tbl \<Longrightarrow> inj_on row_id (set (rows tbl))"
  by (simp add: primary_key_def distinct_map)

lemma ledger_two_rows:
  "ledger_two =
     \<lparr>rows = [\<lparr>row_id = 1, chat_id = - 1001, message_id = 40, delete_at = 100\<rparr>,
              \<lparr>row_id = 2, chat_id = - 1002, message_id = 41, delete_at = 900\<rparr>],
      seq = 2\<rparr>"
  by (simp add: ledger_two_def db_schedule_deletion_def db_init_def next_row_id_def)

text \<open>The due rows, sorted by a key that is unique, are in strictly ascending order.\<close>

lemma due_strict_sorted:
  assumes "primary_key tbl"
  shows "sorted_wrt (<) (map row_id (sort_key row_id (filter P (rows tbl))))"
proof -
  have "distinct (map row_id (filter P (rows tbl)))"
    using assms by (simp add: primary_key_def distinct_map_filter)
  then have "distinct (map row_id (sort_key row_id (filter P (rows tbl))))"
    by (simp add: distinct_map)
  moreover have "sorted (map row_id (sort_key row_id (filter P (rows tbl))))"
    by (rule sorted_sort_key)
  ultimately show ?thesis
    by (simp add: strict_sorted_iff)
qed

text \<open>
  C3. In a table whose \<open>id\<close> is a key, for a limit that is a count (not negative),
  \<open>db_fetch_due_deletions now limit\<close> returns only the \<open>(id, chat_id, message_id)\<close> of rows
  with \<open>delete_at <= now\<close>, and no row with \<open>delete_at > now\<close>; it returns at most \<open>limit\<close>
  of them, and as many as the cap and the number of due rows allow; they come in strictly
  ascending order of \<open>id\<close>, oldest enqueued first: a due row that is not returned has a
  larger \<open>id\<close> than every row returned.
\<close>

theorem fetch_due_oldest_due_capped:
  assumes key: "primary_key tbl" and count: "0 \<le> limit"
  shows "(\<forall>t \<in> set (db_fetch_due_deletions now_ts limit tbl).
            \<exists>r \<in> set (rows tbl). t = (row_id r, chat_id r, message_id r) \<and> delete_at r \<le> now_ts)
       \<and> int (length (db_fetch_due_deletions now_ts limit tbl)) \<le> limit
       \<and> length (db_fetch_due_deletions now_ts limit tbl) =
           min (nat limit) (length (filter (\<lambda>r. delete_at r \<le> now_ts) (rows tbl)))
       \<and> sorted_wrt (<) (map fst (db_fetch_due_deletions now_ts limit tbl))
       \<and> (\<forall>r \<in> set (rows tbl). now_ts < delete_at r \<longrightarrow>
             row_id r \<notin> fst ` set (db_fetch_due_deletions now_ts limit tbl))
       \<and> (\<forall>r \<in> set (rows tbl).
             delete_at r \<le> now_ts \<and> row_id r \<notin> fst ` set (db_fetch_due_deletions now_ts limit tbl)
             \<longrightarrow> (\<forall>i \<in> fst ` set (db_fetch_due_deletions now_ts limit tbl). i < row_id r))"
proof (intro conjI)
  let ?due = "sort_key row_id (filter (\<lambda>r. delete_at r \<le> now_ts) (rows tbl))"
  let ?n = "nat limit"
  have res: "db_fetch_due_deletions now_ts limit tbl =
      map (\<lambda>r. (row_id r, chat_id r, message_id r)) (take ?n ?due)"
    using count by (simp add: db_fetch_due_deletions_def Let_def)
  have ids: "map fst (db_fetch_due_deletions now_ts limit tbl) = map row_id (take ?n ?due)"
    unfolding res by (simp add: comp_def)
  have id_set: "fst ` set (db_fetch_due_deletions now_ts limit tbl) = row_id ` set (take ?n ?due)"
    using ids by (metis list.set_map)
  have taken: "set (take ?n ?due) \<subseteq> {r \<in> set (rows tbl). delete_at r \<le> now_ts}"
    by (auto dest: in_set_takeD)
  have strict: "sorted_wrt (<) (map row_id ?due)"
    by (rule due_strict_sorted [OF key])
  show only_due: "\<forall>t \<in> set (db_fetch_due_deletions now_ts limit tbl).
      \<exists>r \<in> set (rows tbl). t = (row_id r, chat_id r, message_id r) \<and> delete_at r \<le> now_ts"
    using taken unfolding res by auto
  show "int (length (db_fetch_due_deletions now_ts limit tbl)) \<le> limit"
    unfolding res using count by simp
  show "length (db_fetch_due_deletions now_ts limit tbl) =
      min (nat limit) (length (filter (\<lambda>r. delete_at r \<le> now_ts) (rows tbl)))"
    unfolding res by (simp add: min.commute)
  from strict have "sorted_wrt (<) (map row_id (take ?n ?due))"
    by (simp add: take_map [symmetric] sorted_wrt_take)
  then show "sorted_wrt (<) (map fst (db_fetch_due_deletions now_ts limit tbl))"
    by (simp only: ids)
  show "\<forall>r \<in> set (rows tbl). now_ts < delete_at r \<longrightarrow>
      row_id r \<notin> fst ` set (db_fetch_due_deletions now_ts limit tbl)"
  proof (intro ballI impI notI)
    fix r
    assume r: "r \<in> set (rows tbl)" and late: "now_ts < delete_at r"
      and "row_id r \<in> fst ` set (db_fetch_due_deletions now_ts limit tbl)"
    then obtain r' where r': "r' \<in> set (take ?n ?due)" "row_id r' = row_id r"
      unfolding id_set by auto
    with taken have "r' \<in> set (rows tbl)" "delete_at r' \<le> now_ts"
      by auto
    with r r'(2) primary_key_inj [OF key] have "r' = r"
      by (auto dest: inj_onD)
    with \<open>delete_at r' \<le> now_ts\<close> late show False by simp
  qed
  show "\<forall>r \<in> set (rows tbl).
      delete_at r \<le> now_ts \<and> row_id r \<notin> fst ` set (db_fetch_due_deletions now_ts limit tbl)
      \<longrightarrow> (\<forall>i \<in> fst ` set (db_fetch_due_deletions now_ts limit tbl). i < row_id r)"
  proof (intro ballI impI)
    fix r i
    assume r: "r \<in> set (rows tbl)"
      and left: "delete_at r \<le> now_ts \<and>
        row_id r \<notin> fst ` set (db_fetch_due_deletions now_ts limit tbl)"
      and i: "i \<in> fst ` set (db_fetch_due_deletions now_ts limit tbl)"
    from r left have "r \<in> set ?due"
      by simp
    moreover from left have "r \<notin> set (take ?n ?due)"
      unfolding id_set by auto
    ultimately have later: "r \<in> set (drop ?n ?due)"
      by (metis Un_iff append_take_drop_id set_append)
    from i obtain r' where r': "r' \<in> set (take ?n ?due)" "i = row_id r'"
      unfolding id_set by auto
    from strict have "sorted_wrt (<) (map row_id (take ?n ?due) @ map row_id (drop ?n ?due))"
      by (simp only: map_append [symmetric] append_take_drop_id)
    with r'(1) later have "row_id r' < row_id r"
      by (auto simp: sorted_wrt_append)
    with r'(2) show "i < row_id r"
      by simp
  qed
qed

theorem fetch_due_witness:
  "primary_key ledger_two
   \<and> db_fetch_due_deletions 1000 1 ledger_two = [(1, - 1001, 40)]
   \<and> int (length (db_fetch_due_deletions 1000 1 ledger_two)) \<le> 1
   \<and> sorted_wrt (<) (map fst (db_fetch_due_deletions 1000 1 ledger_two))
   \<and> db_fetch_due_deletions 500 200 ledger_two = [(1, - 1001, 40)]
   \<and> 2 \<notin> fst ` set (db_fetch_due_deletions 500 200 ledger_two)"
proof -
  have pk: "primary_key ledger_two"
    by (simp add: primary_key_def ledger_two_rows)
  have one: "db_fetch_due_deletions 1000 1 ledger_two = [(1, - 1001, 40)]"
    by (simp add: db_fetch_due_deletions_def ledger_two_rows)
  have ev: "db_fetch_due_deletions 500 200 ledger_two = [(1, - 1001, 40)]"
    by (simp add: db_fetch_due_deletions_def ledger_two_rows)
  have c1: "(0::int) \<le> 1" and c200: "(0::int) \<le> 200"
    by simp_all
  from fetch_due_oldest_due_capped [OF pk c1, of 1000]
    fetch_due_oldest_due_capped [OF pk c200, of 500] pk one ev
  show ?thesis by simp
qed

text \<open>A negative limit, which no caller passes, is no cap: all due rows come back.\<close>

lemma fetch_due_negative_limit_uncapped:
  "limit < 0 \<Longrightarrow>
   db_fetch_due_deletions now_ts limit tbl =
     map (\<lambda>r. (row_id r, chat_id r, message_id r))
       (sort_key row_id (filter (\<lambda>r. delete_at r \<le> now_ts) (rows tbl)))"
  by (simp add: db_fetch_due_deletions_def)

text \<open>
  C4. \<open>db_delete_deletion_row\<close> is idempotent: deleting a row twice leaves the ledger that
  deleting it once leaves, in which no row has that \<open>id\<close>; and deleting an \<open>id\<close> that no row
  has leaves the ledger as it was. The statement is a total function on ledgers: no
  outcome of it is an error.
\<close>

theorem delete_row_idempotent:
  "db_delete_deletion_row rid (db_delete_deletion_row rid tbl) = db_delete_deletion_row rid tbl
   \<and> rid \<notin> row_id ` set (rows (db_delete_deletion_row rid tbl))
   \<and> (rid \<notin> row_id ` set (rows tbl) \<longrightarrow> db_delete_deletion_row rid tbl = tbl)"
proof (intro conjI impI)
  show "db_delete_deletion_row rid (db_delete_deletion_row rid tbl) =
      db_delete_deletion_row rid tbl"
    by (simp add: db_delete_deletion_row_def)
  show "rid \<notin> row_id ` set (rows (db_delete_deletion_row rid tbl))"
    by (auto simp: db_delete_deletion_row_def)
  assume "rid \<notin> row_id ` set (rows tbl)"
  then have "filter (\<lambda>r. row_id r \<noteq> rid) (rows tbl) = rows tbl"
    by (auto simp: filter_id_conv)
  then show "db_delete_deletion_row rid tbl = tbl"
    by (simp add: db_delete_deletion_row_def)
qed

theorem delete_row_idempotent_witness:
  "db_delete_deletion_row 1 (db_delete_deletion_row 1 ledger_two) =
     db_delete_deletion_row 1 ledger_two
   \<and> map row_id (rows (db_delete_deletion_row 1 ledger_two)) = [2]
   \<and> 7 \<notin> row_id ` set (rows ledger_two)
   \<and> db_delete_deletion_row 7 ledger_two = ledger_two"
proof -
  have absent: "7 \<notin> row_id ` set (rows ledger_two)"
    by (simp add: ledger_two_rows)
  have "map row_id (rows (db_delete_deletion_row 1 ledger_two)) = [2]"
    by (simp add: db_delete_deletion_row_def ledger_two_rows)
  with delete_row_idempotent [of 1 ledger_two] delete_row_idempotent [of 7 ledger_two] absent
  show ?thesis by simp
qed

section \<open>Properties of the users table\<close>

lemma find_user_None: "find (\<lambda>u. user_id u = uid) us = None \<longleftrightarrow> uid \<notin> user_id ` set us"
  by (auto simp: find_None_iff)

text \<open>
  C10. \<open>add_user_to_db\<close> keeps the users table at one row per \<open>user_id\<close> at most: called
  with a \<open>user_id\<close> the table has, it leaves the table as it is (the stored \<open>first_name\<close> and
  \<open>username\<close> included); called with a new one, it appends exactly one row, that of the
  three arguments.
\<close>

theorem add_user_to_db_one_row_per_user:
  assumes "distinct (map user_id us)"
  shows "distinct (map user_id (add_user_to_db uid fname uname us))
       \<and> (uid \<in> user_id ` set us \<longrightarrow> add_user_to_db uid fname uname us = us)
       \<and> (uid \<notin> user_id ` set us \<longrightarrow>
            add_user_to_db uid fname uname us =
              us @ [\<lparr>id_col = new_user_id us, user_id = uid,
                      first_name = fname, username = uname\<rparr>])"
proof (cases "find (\<lambda>u. user_id u = uid) us")
  case None
  then have "uid \<notin> user_id ` set us"
    by (simp add: find_user_None)
  with None assms show ?thesis
    by (simp add: add_user_to_db_def)
next
  case (Some u)
  then have "uid \<in> user_id ` set us"
    using find_user_None [of uid us] by auto
  with Some assms show ?thesis
    by (simp add: add_user_to_db_def)
qed

theorem add_user_to_db_witness:
  "distinct (map user_id users_one)
   \<and> 42 \<in> user_id ` set users_one
   \<and> add_user_to_db 42 ''Elisa'' None users_one = users_one
   \<and> 43 \<notin> user_id ` set users_one
   \<and> map user_id (add_user_to_db 43 ''Bob'' None users_one) = [42, 43]
   \<and> map id_col (add_user_to_db 43 ''Bob'' None users_one) = [1, 2]"
proof -
  have u: "users_one =
      [\<lparr>id_col = 1, user_id = 42, first_name = ''Lisa'', username = Some ''lisa''\<rparr>]"
    by (simp add: users_one_def add_user_to_db_def new_user_id_def)
  have d: "distinct (map user_id users_one)"
    by (simp add: u)
  have a: "42 \<in> user_id ` set users_one" and b: "43 \<notin> user_id ` set users_one"
    by (simp_all add: u)
  have n: "new_user_id users_one = 2"
    by (simp add: u new_user_id_def)
  from add_user_to_db_one_row_per_user [OF d, of 42 "''Elisa''" None]
    add_user_to_db_one_row_per_user [OF d, of 43 "''Bob''" None] a b d n
  show ?thesis by (simp add: u)
qed

section \<open>Properties of the schedule computation\<close>

text \<open>Wall-clock fields and wall-clock microseconds determine each other.\<close>

lemma datetime_of_wall_minute:
  assumes "0 \<le> h" "h \<le> 23" "0 \<le> m" "m \<le> 59"
  shows "datetime_of_wall ((k * 86400 + h * 3600 + m * 60) * 1000000) =
    \<lparr>ordinal = 719163 + k, hour = h, minute = m, second = 0, microsecond = 0\<rparr>"
proof -
  let ?x = "(k * 86400 + h * 3600 + m * 60) * 1000000"
  let ?r = "h * 3600000000 + m * 60000000"
  have x: "?x = k * 86400000000 + ?r"
    by (simp add: algebra_simps)
  have r: "0 \<le> ?r" "?r < 86400000000"
    using assms by simp_all
  have "(k * 86400000000 + ?r) div 86400000000 = k + ?r div 86400000000"
    by (rule div_mult_self3) simp
  with r have d: "?x div 86400000000 = k"
    by (simp only: x div_pos_pos_trivial) 
  have "(k * 86400000000 + ?r) mod 86400000000 = ?r mod 86400000000"
    by (rule mod_mult_self3)
  with r have md: "?x mod 86400000000 = ?r"
    by (simp only: x mod_pos_pos_trivial)
  have m': "0 \<le> m * 60000000" "m * 60000000 < 3600000000"
    using assms by simp_all
  have "(h * 3600000000 + m * 60000000) div 3600000000 = h + (m * 60000000) div 3600000000"
    by (rule div_mult_self3) simp
  with m' have hh: "?r div 3600000000 = h"
    by (simp only: div_pos_pos_trivial) 
  have x2: "?x = (k * 24 + h) * 3600000000 + m * 60000000"
    by (simp add: algebra_simps)
  have "((k * 24 + h) * 3600000000 + m * 60000000) mod 3600000000 = (m * 60000000) mod 3600000000"
    by (rule mod_mult_self3)
  with m' have mh: "?x mod 3600000000 = m * 60000000"
    by (simp only: x2 mod_pos_pos_trivial)
  have mm: "?x mod 60000000 = 0" 
    by (simp add: algebra_simps)
  have ms: "?x mod 1000000 = 0"
    by simp
  show ?thesis
    unfolding datetime_of_wall_def by (simp only: d md hh mh mm ms) simp
qed

lemma wall_roundtrip: "wall_of_datetime (datetime_of_wall us) = us"
proof -
  define q1 where "q1 = us div 86400000000"
  define r1 where "r1 = us mod 86400000000"
  define q2 where "q2 = r1 div 3600000000"
  define r2 where "r2 = us mod 3600000000"
  define q3 where "q3 = r2 div 60000000"
  define r3 where "r3 = us mod 60000000"
  define q4 where "q4 = r3 div 1000000"
  define r4 where "r4 = us mod 1000000"
  have a: "us = 86400000000 * q1 + r1"
    unfolding q1_def r1_def by (rule mult_div_mod_eq [symmetric])
  have "r1 mod 3600000000 = r2"
    unfolding r1_def r2_def by (rule mod_mod_cancel) simp
  then have b: "r1 = 3600000000 * q2 + r2"
    unfolding q2_def using mult_div_mod_eq [of 3600000000 r1] by simp
  have "r2 mod 60000000 = r3"
    unfolding r2_def r3_def by (rule mod_mod_cancel) simp
  then have c: "r2 = 60000000 * q3 + r3"
    unfolding q3_def using mult_div_mod_eq [of 60000000 r2] by simp
  have "r3 mod 1000000 = r4"
    unfolding r3_def r4_def by (rule mod_mod_cancel) simp
  then have e: "r3 = 1000000 * q4 + r4"
    unfolding q4_def using mult_div_mod_eq [of 1000000 r3] by simp
  have "wall_of_datetime (datetime_of_wall us) =
      (q1 * 86400 + q2 * 3600 + q3 * 60 + q4) * 1000000 + r4"
    unfolding wall_of_datetime_def datetime_of_wall_def q1_def r1_def q2_def r2_def q3_def r3_def
      q4_def r4_def
    by simp
  also have "\<dots> = us"
    by (simp add: a b c e algebra_simps)
  finally show ?thesis .
qed

lemma mod7_complete:
  fixes a w :: int
  shows "(a + (w - a mod 7) mod 7) mod 7 = w mod 7"
proof -
  have "(a + (w - a mod 7) mod 7) mod 7 = (a + (w - a mod 7)) mod 7"
    by (rule mod_add_right_eq)
  also have "a + (w - a mod 7) = w + 7 * (a div 7)"
    using mult_div_mod_eq [of 7 a] by linarith
  also have "(w + 7 * (a div 7)) mod 7 = w mod 7"
    by simp
  finally show ?thesis .
qed

lemma weekday_plus_days_ahead:
  "weekday (plus_days d ((wd - weekday d) mod 7)) = wd mod 7"
proof -
  let ?a = "ordinal d + 6"
  have "weekday (plus_days d ((wd - weekday d) mod 7)) = (?a + (wd - ?a mod 7) mod 7) mod 7"
    by (simp add: weekday_def plus_days_def algebra_simps)
  also have "\<dots> = wd mod 7"
    by (rule mod7_complete)
  finally show ?thesis .
qed

lemma weekday_plus_week: "weekday (plus_days d 7) = weekday d"
proof -
  have "(ordinal d + 7 + 6) mod 7 = (ordinal d + 6 + 7) mod 7"
    by (simp add: algebra_simps)
  also have "\<dots> = (ordinal d + 6) mod 7"
    by (rule mod_add_self2)
  finally show ?thesis
    unfolding weekday_def plus_days_def by simp
qed

lemma wall_plus_days: "wall_of_datetime (plus_days d n) = wall_of_datetime d + n * 86400000000"
  by (simp add: wall_of_datetime_def plus_days_def algebra_simps)

lemma wall_day_bounds:
  fixes us :: int
  shows "(us div 86400000000) * 86400000000 \<le> us"
    and "us < (us div 86400000000) * 86400000000 + 86400000000"
proof -
  have e: "us = (us div 86400000000) * 86400000000 + us mod 86400000000"
    by (rule div_mult_mod_eq [symmetric])
  have "0 \<le> us mod 86400000000"
    by simp
  with e show "(us div 86400000000) * 86400000000 \<le> us"
    by linarith
  have "us mod 86400000000 < 86400000000"
    by simp
  with e show "us < (us div 86400000000) * 86400000000 + 86400000000"
    by linarith
qed

text \<open>
  What \<open>_seconds_until_next_weekly\<close> computes, in wall-clock terms: for an hour and a
  minute in range it returns a positive timedelta of at most seven days, which leads from
  the wall-clock reading of now to a wall-clock time on the given weekday (modulo 7, as
  Python's \<open>%\<close> reads it) at the given hour and minute, zero seconds.
\<close>

lemma seconds_until_next_weekly_wall:
  assumes hm: "0 \<le> h" "h \<le> 23" "0 \<le> m" "m \<le> 59"
  shows "\<exists>d target.
     seconds_until_next_weekly wd h m tz t = Inr d
     \<and> 0 < d \<and> d \<le> 604800000000
     \<and> wall_of_datetime target = wall_of_datetime (datetime_now tz t) + d
     \<and> datetime_of_wall (wall_of_datetime target) = target
     \<and> weekday target = wd mod 7 \<and> hour target = h \<and> minute target = m
     \<and> second target = 0 \<and> microsecond target = 0"
proof -
  define now where "now = datetime_now tz t"
  define L where "L = t + utcoffset_at tz (t div 1000000) * 1000000"
  define k where "k = L div 86400000000"
  define da where "da = (wd - weekday now) mod 7"
  define target0 where "target0 = (plus_days now da)\<lparr>hour := h, minute := m, second := 0, microsecond := 0\<rparr>"
  define target where "target = (if wall_of_datetime target0 \<le> wall_of_datetime now then plus_days target0 7 else target0)"
  have now_L: "now = datetime_of_wall L"
    by (simp add: now_def L_def datetime_now_def)
  have wall_now: "wall_of_datetime now = L"
    by (simp add: now_L wall_roundtrip)
  have ord_now: "ordinal now = 719163 + k"
    by (simp add: now_L datetime_of_wall_def k_def)
  have da: "0 \<le> da" "da \<le> 6"
    by (simp_all add: da_def) 
  have wall0: "wall_of_datetime target0 = ((k + da) * 86400 + h * 3600 + m * 60) * 1000000"
    by (simp add: target0_def wall_of_datetime_def plus_days_def ord_now)
  have L: "k * 86400000000 \<le> L" "L < k * 86400000000 + 86400000000"
    unfolding k_def by (rule wall_day_bounds)+
  have res: "seconds_until_next_weekly wd h m tz t = Inr (wall_of_datetime target - wall_of_datetime now)"
    using hm by (simp add: seconds_until_next_weekly_def replace_time_def Let_def now_def [symmetric]
        da_def [symmetric] target_def target0_def)
  have lo: "k * 86400000000 \<le> wall_of_datetime target0"
    using da hm unfolding wall0 by (simp add: algebra_simps)
  have hi: "wall_of_datetime target0 < k * 86400000000 + 7 * 86400000000"
    using da hm unfolding wall0 by (simp add: algebra_simps)
  have wt: "wall_of_datetime target = (if wall_of_datetime target0 \<le> L then wall_of_datetime target0 + 604800000000 else wall_of_datetime target0)"
    by (simp add: target_def wall_now wall_plus_days)
  have pos: "0 < wall_of_datetime target - wall_of_datetime now"
    using lo L unfolding wt wall_now by (simp split: if_splits)
  have le: "wall_of_datetime target - wall_of_datetime now \<le> 604800000000"
    using hi L unfolding wt wall_now by (simp split: if_splits)
  have wd0: "weekday target0 = wd mod 7"
    using weekday_plus_days_ahead [of now wd]
    by (simp add: target0_def da_def weekday_def)
  have wd: "weekday target = wd mod 7"
    using wd0 by (simp add: target_def weekday_plus_week)
  have fields: "hour target = h" "minute target = m" "second target = 0" "microsecond target = 0"
    by (simp_all add: target_def target0_def plus_days_def)
  have "target = \<lparr>ordinal = 719163 + (ordinal target - 719163), hour = h, minute = m, second = 0, microsecond = 0\<rparr>"
    using fields by (cases target) simp
  moreover have "wall_of_datetime target = ((ordinal target - 719163) * 86400 + h * 3600 + m * 60) * 1000000"
    using fields by (simp add: wall_of_datetime_def)
  ultimately have rt: "datetime_of_wall (wall_of_datetime target) = target"
    using datetime_of_wall_minute [OF hm, of "ordinal target - 719163"] by simp
  show ?thesis
    using res pos le wd fields rt by (intro exI [of _ "wall_of_datetime target - wall_of_datetime now"] exI [of _ target]) (simp add: now_def)
qed

lemma seconds_until_next_weekly_exactly_at_target:
  assumes "datetime_now tz t = \<lparr>ordinal = day, hour = h, minute = m, second = 0, microsecond = 0\<rparr>"
    and "0 \<le> h" "h \<le> 23" "0 \<le> m" "m \<le> 59"
  shows "seconds_until_next_weekly (weekday (datetime_now tz t)) h m tz t = Inr 604800000000"
  using assms
  by (simp add: seconds_until_next_weekly_def replace_time_def Let_def plus_days_def wall_of_datetime_def)

lemma seconds_until_next_weekly_fixed_offset:
  assumes hm: "0 \<le> h" "h \<le> 23" "0 \<le> m" "m \<le> 59"
    and fixed: "\<And>s. utcoffset_at tz s = off"
  shows "\<exists>d. seconds_until_next_weekly wd h m tz t = Inr d \<and> 0 < d
     \<and> weekday (datetime_now tz (t + d)) = wd mod 7
     \<and> hour (datetime_now tz (t + d)) = h \<and> minute (datetime_now tz (t + d)) = m
     \<and> second (datetime_now tz (t + d)) = 0 \<and> microsecond (datetime_now tz (t + d)) = 0"
proof -
  from seconds_until_next_weekly_wall [OF hm, of wd tz t] obtain d target where
    d: "seconds_until_next_weekly wd h m tz t = Inr d" "0 < d"
      "wall_of_datetime target = wall_of_datetime (datetime_now tz t) + d"
      "datetime_of_wall (wall_of_datetime target) = target"
      "weekday target = wd mod 7" "hour target = h" "minute target = m"
      "second target = 0" "microsecond target = 0"
    by blast
  have "datetime_now tz (t + d) = datetime_of_wall (wall_of_datetime (datetime_now tz t) + d)"
    by (simp add: datetime_now_def fixed wall_roundtrip algebra_simps)
  with d have "datetime_now tz (t + d) = target"
    by simp
  with d show ?thesis by auto
qed

lemma paris_saturday_noon:
  "datetime_now europe_paris 1743246000000000 =
     \<lparr>ordinal = 739339, hour = 12, minute = 0, second = 0, microsecond = 0\<rparr>"
  by (simp add: datetime_now_def europe_paris_def datetime_of_wall_def)

text \<open>
  C2: the next occurrence is strictly in the future, on the given weekday at the given
  local hour and minute, in every time zone. The lemmas above give this for the wall-clock
  target that \<open>_seconds_until_next_weekly\<close> computes, and for the instant the worker wakes
  at in a zone of fixed offset. It fails where the offset changes before the target: the
  function returns the difference of the wall-clock readings, and the worker sleeps that
  many seconds of elapsed time. In Europe/Paris at 2025-03-29 12:00 local (a Saturday,
  unix 1743246000), for Sunday 12:00, it returns 86400 seconds; the clocks go forward that
  night, and 86400 seconds later it is Sunday 13:00 local. Sunday 12:00 local is 82800
  seconds away.
\<close>

theorem seconds_until_next_weekly_across_dst:
  "weekday (datetime_now europe_paris 1743246000000000) = 5
   \<and> hour (datetime_now europe_paris 1743246000000000) = 12
   \<and> seconds_until_next_weekly 6 12 0 europe_paris 1743246000000000 = Inr 86400000000
   \<and> weekday (datetime_now europe_paris (wake_instant 1743246000000000 86400000000)) = 6
   \<and> hour (datetime_now europe_paris (wake_instant 1743246000000000 86400000000)) = 13
   \<and> datetime_now europe_paris (1743246000000000 + 82800000000) =
        \<lparr>ordinal = 739340, hour = 12, minute = 0, second = 0, microsecond = 0\<rparr>"
  by (simp add: seconds_until_next_weekly_def paris_saturday_noon weekday_def plus_days_def
      replace_time_def wall_of_datetime_def wake_instant_def)
    (simp add: datetime_now_def europe_paris_def datetime_of_wall_def)

text \<open>
  In October the same computation wakes the worker an hour early, on Sunday 11:00 local
  (2025-10-26); it sends, computes one hour to the target of the same day, and sends again
  at 12:00.
\<close>

lemma seconds_until_next_weekly_fires_twice:
  "seconds_until_next_weekly 6 12 0 europe_paris 1761386400000000 = Inr 86400000000
   \<and> datetime_now europe_paris (wake_instant 1761386400000000 86400000000) =
        \<lparr>ordinal = 739550, hour = 11, minute = 0, second = 0, microsecond = 0\<rparr>
   \<and> seconds_until_next_weekly 6 12 0 europe_paris
        (wake_instant 1761386400000000 86400000000) = Inr 3600000000"
proof -
  have a: "datetime_now europe_paris 1761386400000000 =
      \<lparr>ordinal = 739549, hour = 12, minute = 0, second = 0, microsecond = 0\<rparr>"
    by (simp add: datetime_now_def europe_paris_def datetime_of_wall_def)
  have b: "datetime_now europe_paris 1761472800000000 =
      \<lparr>ordinal = 739550, hour = 11, minute = 0, second = 0, microsecond = 0\<rparr>"
    by (simp add: datetime_now_def europe_paris_def datetime_of_wall_def)
  have w: "wake_instant 1761386400000000 86400000000 = 1761472800000000"
    by (simp add: wake_instant_def)
  show ?thesis
    unfolding w
    by (simp add: seconds_until_next_weekly_def a b weekday_def plus_days_def replace_time_def
        wall_of_datetime_def)
qed

section \<open>Properties of the retention reaper\<close>

lemma call_client_calls: "call_client e c w = (r, w') \<Longrightarrow> calls w' = calls w @ [(c, r)]"
  by (auto simp: call_client_def Let_def)

lemma call_client_frame:
  "call_client e c w = (r, w') \<Longrightarrow> db w' = db w \<and> files w' = files w \<and> logs w' = logs w \<and> tick w' = Suc (tick w)"
  by (auto simp: call_client_def Let_def)

lemma call_client_reply: "call_client e c w = (r, w') \<Longrightarrow> r = client e (tick w) c"
  by (auto simp: call_client_def Let_def)

lemma logger_warning_frame [simp]:
  "db (logger_warning m w) = db w" "files (logger_warning m w) = files w"
  "calls (logger_warning m w) = calls w" "tick (logger_warning m w) = tick w"
  "logs (logger_warning m w) = logs w @ [(WARNING, m)]"
  by (simp_all add: logger_warning_def)

lemma logger_info_frame [simp]:
  "db (logger_info m w) = db w" "files (logger_info m w) = files w"
  "calls (logger_info m w) = calls w" "tick (logger_info m w) = tick w"
  "logs (logger_info m w) = logs w @ [(INFO, m)]"
  by (simp_all add: logger_info_def)

lemma delete_rows [simp]:
  "rows (db_delete_deletion_row rid tbl) = filter (\<lambda>r. row_id r \<noteq> rid) (rows tbl)"
  by (simp add: db_delete_deletion_row_def)

lemma retract_calls:
  "map fst (calls (retract e rs w)) =
     map fst (calls w) @ map (\<lambda>(rid, chat, mid). DeleteMessages chat mid) rs"
proof (induction e rs w rule: retract.induct)
  case (1 e w)
  then show ?case by simp
next
  case (2 e rid chat mid rest w)
  obtain r w1 where c: "call_client e (DeleteMessages chat mid) w = (r, w1)"
    by (cases "call_client e (DeleteMessages chat mid) w")
  from call_client_calls [OF c] have w1: "calls w1 = calls w @ [(DeleteMessages chat mid, r)]" .
  show ?case
  proof (cases r)
    case (Raises x)
    with 2 c w1 show ?thesis by simp
  next
    case (Returns n)
    with 2 c w1 show ?thesis by simp
  qed
qed

lemma retract_rows:
  "rows (db (retract e rs w)) = filter (\<lambda>r. row_id r \<notin> fst ` set rs) (rows (db w))"
proof (induction e rs w rule: retract.induct)
  case (1 e w)
  then show ?case by simp
next
  case (2 e rid chat mid rest w)
  obtain r w1 where c: "call_client e (DeleteMessages chat mid) w = (r, w1)"
    by (cases "call_client e (DeleteMessages chat mid) w")
  from call_client_frame [OF c] have w1: "db w1 = db w" by simp
  have f: "filter (\<lambda>r. row_id r \<notin> fst ` set rest) (filter (\<lambda>r. row_id r \<noteq> rid) (rows (db w)))
      = filter (\<lambda>r. row_id r \<notin> fst ` set ((rid, chat, mid) # rest)) (rows (db w))"
    by (auto intro: filter_cong)
  show ?case
  proof (cases r)
    case (Raises x)
    with 2 c w1 f show ?thesis by simp
  next
    case (Returns n)
    with 2 c w1 f show ?thesis by simp
  qed
qed

lemma fetch_ids: "fst ` set (db_fetch_due_deletions n l tbl) \<subseteq> row_id ` set (rows tbl)"
  by (auto simp: db_fetch_due_deletions_def Let_def dest: in_set_takeD)

lemma seq_le_next: "seq tbl < next_row_id tbl"
proof -
  have "b \<le> foldr max xs (b::int)" for b xs
    by (induction xs) auto
  from this [of "seq tbl" "map row_id (rows tbl)"] show ?thesis
    by (simp add: next_row_id_def)
qed

lemma seq_bounds_schedule: "seq_bounds (db_schedule_deletion c m d tbl)"
  using next_row_id_fresh [of _ tbl]
  by (auto simp: seq_bounds_def db_schedule_deletion_def list_all_iff less_imp_le)

lemma seq_bounds_delete: "seq_bounds tbl \<Longrightarrow> seq_bounds (db_delete_deletion_row i tbl)"
  by (auto simp: seq_bounds_def db_delete_deletion_row_def list_all_iff)

lemma retired_id_stays_out:
  "i \<le> seq tbl \<Longrightarrow> i \<notin> row_id ` set (rows tbl) \<Longrightarrow>
   i \<notin> row_id ` set (rows (ledger_ops ops tbl))"
proof (induction ops tbl rule: ledger_ops.induct)
  case (1 tbl)
  then show ?case by simp
next
  case (2 c m d ops tbl)
  have "i < next_row_id tbl"
    using seq_le_next [of tbl] 2(2) by simp
  then have "i \<le> seq (db_schedule_deletion c m d tbl)"
    and "i \<notin> row_id ` set (rows (db_schedule_deletion c m d tbl))"
    using 2(3) by (auto simp: db_schedule_deletion_def)
  with 2(1) show ?case by simp
next
  case (3 j ops tbl)
  have "i \<le> seq (db_delete_deletion_row j tbl)"
    and "i \<notin> row_id ` set (rows (db_delete_deletion_row j tbl))"
    using 3(2,3) by (auto simp: db_delete_deletion_row_def)
  with 3(1) show ?case by simp
qed

lemma retract_seq: "seq (db (retract e rs w)) = seq (db w)"
proof (induction e rs w rule: retract.induct)
  case (1 e w)
  then show ?case by simp
next
  case (2 e rid chat mid rest w)
  obtain r w1 where c: "call_client e (DeleteMessages chat mid) w = (r, w1)"
    by (cases "call_client e (DeleteMessages chat mid) w")
  from call_client_frame [OF c] have w1: "db w1 = db w" by simp
  show ?case
  proof (cases r)
    case (Raises x)
    with 2 c w1 show ?thesis by (simp add: db_delete_deletion_row_def)
  next
    case (Returns n)
    with 2 c w1 show ?thesis by (simp add: db_delete_deletion_row_def)
  qed
qed

lemma autodelete_poll_retract:
  "autodelete_poll e w =
     retract e (db_fetch_due_deletions (int_of_seconds (clock e (tick w))) 200 (db w))
       (if db_fetch_due_deletions (int_of_seconds (clock e (tick w))) 200 (db w) = []
        then w\<lparr>tick := Suc (tick w)\<rparr>
        else logger_info (ToDelete (length (db_fetch_due_deletions (int_of_seconds (clock e (tick w))) 200 (db w))))
               (w\<lparr>tick := Suc (tick w)\<rparr>))"
  by (simp add: autodelete_poll_def Let_def)

text \<open>
  C8. One poll of \<open>_autodelete_worker\<close> makes exactly one \<open>delete_messages\<close> call for each
  due row it fetched, in the order fetched, and leaves the ledger without those rows and
  with every other row, whatever the channel client replied (a call that raises is logged
  and its row removed all the same). No later fetch returns a row it processed, whatever
  inserts and deletes reach the ledger in between: the keys are not handed out again.
\<close>

theorem autodelete_poll_one_attempt_then_removed:
  assumes due: "due = db_fetch_due_deletions (int_of_seconds (clock e (tick w))) 200 (db w)"
    and bounds: "seq_bounds (db w)"
  shows "map fst (drop (length (calls w)) (calls (autodelete_poll e w))) =
           map (\<lambda>(rid, chat, mid). DeleteMessages chat mid) due
       \<and> rows (db (autodelete_poll e w)) =
           filter (\<lambda>r. row_id r \<notin> fst ` set due) (rows (db w))
       \<and> fst ` set (db_fetch_due_deletions later limit (ledger_ops ops (db (autodelete_poll e w))))
           \<inter> fst ` set due = {}"
proof (intro conjI)
  let ?w = "if due = [] then w\<lparr>tick := Suc (tick w)\<rparr>
            else logger_info (ToDelete (length due)) (w\<lparr>tick := Suc (tick w)\<rparr>)"
  have poll: "autodelete_poll e w = retract e due ?w"
    unfolding due by (rule autodelete_poll_retract)
  have same: "calls ?w = calls w" "db ?w = db w"
    by simp_all
  have "map fst (calls (autodelete_poll e w)) =
      map fst (calls w) @ map (\<lambda>(rid, chat, mid). DeleteMessages chat mid) due"
    unfolding poll using retract_calls [of e due ?w] by (simp only: same)
  then have "drop (length (calls w)) (map fst (calls (autodelete_poll e w))) =
      map (\<lambda>(rid, chat, mid). DeleteMessages chat mid) due"
    by simp
  then show "map fst (drop (length (calls w)) (calls (autodelete_poll e w))) =
      map (\<lambda>(rid, chat, mid). DeleteMessages chat mid) due"
    by (simp only: drop_map)
  show rows: "rows (db (autodelete_poll e w)) =
      filter (\<lambda>r. row_id r \<notin> fst ` set due) (rows (db w))"
    unfolding poll using retract_rows [of e due ?w] by (simp only: same)
  have seq: "seq (db (autodelete_poll e w)) = seq (db w)"
    unfolding poll using retract_seq [of e due ?w] by (simp only: same)
  show "fst ` set (db_fetch_due_deletions later limit (ledger_ops ops (db (autodelete_poll e w))))
      \<inter> fst ` set due = {}"
  proof (rule ccontr)
    assume "\<not> ?thesis"
    then obtain i where i: "i \<in> fst ` set due"
      and again: "i \<in> fst ` set (db_fetch_due_deletions later limit
          (ledger_ops ops (db (autodelete_poll e w))))"
      by blast
    from i fetch_ids [of "int_of_seconds (clock e (tick w))" 200 "db w"]
    have "i \<in> row_id ` set (rows (db w))"
      unfolding due by blast
    with bounds have "i \<le> seq (db (autodelete_poll e w))"
      by (auto simp: seq seq_bounds_def list_all_iff)
    moreover from i have "i \<notin> row_id ` set (rows (db (autodelete_poll e w)))"
      unfolding rows by force
    ultimately have "i \<notin> row_id ` set (rows (ledger_ops ops (db (autodelete_poll e w))))"
      by (rule retired_id_stays_out)
    with again fetch_ids [of later limit "ledger_ops ops (db (autodelete_poll e w))"]
    show False by blast
  qed
qed

lemma due_two:
  "db_fetch_due_deletions (int_of_seconds (clock refusing_client (tick world_two))) 200 (db world_two)
     = [(1, - 1001, 40), (2, - 1002, 41)]"
  by (simp add: db_fetch_due_deletions_def ledger_two_rows refusing_client_def world_two_def
      int_of_seconds_def)

lemma poll_two:
  "autodelete_poll refusing_client world_two =
     \<lparr>tick = 3,
      calls = [(DeleteMessages (- 1001) 40, Raises RPCError),
               (DeleteMessages (- 1002) 41, Raises RPCError)],
      logs = [(INFO, ToDelete 2), (WARNING, AutodeleteFailed (- 1001) 40),
              (WARNING, AutodeleteFailed (- 1002) 41)],
      files = {}, db = \<lparr>rows = [], seq = 2\<rparr>\<rparr>"
  unfolding autodelete_poll_retract due_two
  by (simp add: Let_def call_client_def logger_info_def logger_warning_def db_delete_deletion_row_def
      refusing_client_def world_two_def ledger_two_rows)

theorem autodelete_poll_witness:
  "seq_bounds (db world_two)
   \<and> map snd (calls (autodelete_poll refusing_client world_two)) = [Raises RPCError, Raises RPCError]
   \<and> map fst (drop (length (calls world_two)) (calls (autodelete_poll refusing_client world_two))) =
        [DeleteMessages (- 1001) 40, DeleteMessages (- 1002) 41]
   \<and> rows (db (autodelete_poll refusing_client world_two)) = []
   \<and> db_fetch_due_deletions 5000 200
        (ledger_ops [Schedule (- 1001) 40 2000] (db (autodelete_poll refusing_client world_two))) =
        [(3, - 1001, 40)]"
proof -
  have b: "seq_bounds (db world_two)"
    by (simp add: seq_bounds_def world_two_def ledger_two_rows)
  have r: "rows (db world_two) = rows ledger_two"
    by (simp add: world_two_def)
  have l: "db_fetch_due_deletions 5000 200
        (ledger_ops [Schedule (- 1001) 40 2000] (db (autodelete_poll refusing_client world_two))) =
        [(3, - 1001, 40)]"
    by (simp add: poll_two db_fetch_due_deletions_def db_schedule_deletion_def next_row_id_def)
  have s: "map snd (calls (autodelete_poll refusing_client world_two)) = [Raises RPCError, Raises RPCError]"
    by (simp add: poll_two)
  from autodelete_poll_one_attempt_then_removed [OF due_two [symmetric] b, of 5000 200 "[Schedule (- 1001) 40 2000]"]
  show ?thesis
    using b l s by (simp add: r ledger_two_rows)
qed

section \<open>Properties of a delivery\<close>

text \<open>What each step leaves alone, and how it extends the trace and the log.\<close>

lemma resolve_chat_id_frame:
  assumes "resolve_chat_id e chat_ref w = (r, w1)"
  shows "db w1 = db w" and "files w1 = files w"
    and "\<exists>cs. calls w1 = calls w @ cs \<and> filter (is_send \<circ> fst) cs = []"
    and "\<exists>ls. logs w1 = logs w @ ls"
proof -
  show "db w1 = db w"
    using assms
    by (auto simp: resolve_chat_id_def split: chat_ref.splits if_splits option.splits prod.splits
        client_reply.splits dest: call_client_frame)
  show "files w1 = files w"
    using assms
    by (auto simp: resolve_chat_id_def split: chat_ref.splits if_splits option.splits prod.splits
        client_reply.splits dest: call_client_frame)
  show "\<exists>cs. calls w1 = calls w @ cs \<and> filter (is_send \<circ> fst) cs = []"
    using assms
    by (auto simp: resolve_chat_id_def split: chat_ref.splits if_splits option.splits prod.splits
        client_reply.splits dest!: call_client_calls)
  show "\<exists>ls. logs w1 = logs w @ ls"
    using assms
    by (auto simp: resolve_chat_id_def split: chat_ref.splits if_splits option.splits prod.splits
        client_reply.splits dest: call_client_frame)
qed

lemma resolve_chat_id_int: "resolve_chat_id e (IntRef n) w = (Some n, w)"
  by (simp add: resolve_chat_id_def)

lemma download_if_url_frame:
  assumes "download_if_url e u w = (r, w1)"
  shows "db w1 = db w" and "calls w1 = calls w" and "\<exists>ls. logs w1 = logs w @ ls"
  using assms
  by (auto simp: download_if_url_def Let_def split: option.splits if_splits download.splits)

lemma convert_image_frame:
  assumes "convert_image_if_needed e p w = (r, w1)"
  shows "db w1 = db w" and "calls w1 = calls w" and "\<exists>ls. logs w1 = logs w @ ls"
  using assms
  by (auto simp: convert_image_if_needed_def Let_def split: image_result.splits)

lemma convert_video_frame:
  assumes "convert_video_if_needed e p w = (r, w1)"
  shows "db w1 = db w" and "calls w1 = calls w" and "\<exists>ls. logs w1 = logs w @ ls"
  using assms
  by (auto simp: convert_video_if_needed_def Let_def split: video_result.splits if_splits)

lemma prepare_media_frame:
  assumes "prepare_media e post ptype w = (r, conv_path, temp_path, w1)"
  shows "db w1 = db w" and "calls w1 = calls w" and "\<exists>ls. logs w1 = logs w @ ls"
proof -
  obtain m w0 where d: "download_if_url e (cfg_media post) w = (m, w0)"
    by (cases "download_if_url e (cfg_media post) w")
  note d0 = download_if_url_frame [OF d]
  obtain ci wi where i: "convert_image_if_needed e (the m) w0 = (ci, wi)"
    by (cases "convert_image_if_needed e (the m) w0")
  note i0 = convert_image_frame [OF i]
  obtain cv wv where v: "convert_video_if_needed e (the m) w0 = (cv, wv)"
    by (cases "convert_video_if_needed e (the m) w0")
  note v0 = convert_video_frame [OF v]
  have "w1 = w \<or> w1 = logger_warning (MediaNotFound (cfg_name post)) w0 \<or> w1 = w0 \<or> w1 = wi \<or> w1 = wv"
    using assms d i v
    by (auto simp: prepare_media_def Let_def split: if_splits option.splits)
  then show "db w1 = db w" and "calls w1 = calls w" and "\<exists>ls. logs w1 = logs w @ ls"
    using d0 i0 v0 by auto
qed

lemma cleanup_frame [simp]:
  "db (cleanup e ps w) = db w" "calls (cleanup e ps w) = calls w"
  "logs (cleanup e ps w) = logs w" "tick (cleanup e ps w) = tick w"
  by (induction e ps w rule: cleanup.induct) (simp_all add: os_remove_def)

lemma lower_text: "lower ''text'' = ''text''" and lower_photo: "lower ''photo'' = ''photo''"
  by (simp_all add: lower_def)

text \<open>
  C5. If a dispatch call of the channel client (a \<open>send_...\<close> call made during this
  delivery) raises, whichever of the four handlers takes the exception, then
  \<open>_send_autopost_to_chat\<close> returns \<open>None\<close>, that call is the only dispatch call of the
  delivery (no retry), and the last thing logged is the warning of the handler. The
  function returns a value in every case: nothing propagates to the caller.
\<close>

theorem send_autopost_raise_returns_None_no_retry:
  assumes run: "send_autopost_to_chat e chat_ref post w = (result, w')"
    and raised: "(c, Raises x) \<in> set (drop (length (calls w)) (calls w'))"
    and send: "is_send c"
  shows "result = None
       \<and> filter (is_send \<circ> fst) (drop (length (calls w)) (calls w')) = [(c, Raises x)]
       \<and> (\<exists>chat ls. logs w' = logs w @ ls @ [(WARNING, handler x chat)])"
proof -
  let ?ptype = "lower (str_or (cfg_type post) ''text'')"
  obtain r w1 where res: "resolve_chat_id e chat_ref w = (r, w1)"
    by (cases "resolve_chat_id e chat_ref w")
  from resolve_chat_id_frame(3) [OF res] obtain cs where
    cs: "calls w1 = calls w @ cs" "filter (is_send \<circ> fst) cs = []"
    by blast
  from resolve_chat_id_frame(4) [OF res] obtain l1 where l1: "logs w1 = logs w @ l1"
    by blast
  from cs(2) send have not_cs: "(c, Raises x) \<notin> set cs"
    by (auto simp: filter_empty_conv)
  show ?thesis
  proof (cases r)
    case None
    with run res have "w' = logger_warning (ChatResolutionKO chat_ref) w1"
      by (simp add: send_autopost_to_chat_def)
    with cs raised not_cs show ?thesis by simp
  next
    case (Some chat)
    obtain p conv_path temp_path w2 where
      prep: "prepare_media e post ?ptype w1 = (p, conv_path, temp_path, w2)"
      by (cases "prepare_media e post ?ptype w1")
    note w2 = prepare_media_frame [OF prep]
    from w2(3) obtain l2 where l2: "logs w2 = logs w1 @ l2"
      by blast
    show ?thesis
    proof (cases p)
      case Aborted
      with run res Some prep have "w' = cleanup e [conv_path, temp_path] w2"
        by (simp add: send_autopost_to_chat_def)
      with cs w2(2) raised not_cs show ?thesis by simp
    next
      case (Ready media_path)
      let ?call = "dispatch_call ?ptype chat media_path (str_or (cfg_text post) []) (kb (cfg_buttons post))"
      obtain reply w3 where call: "call_client e ?call w2 = (reply, w3)"
        by (cases "call_client e ?call w2")
      from call_client_calls [OF call] cs w2(2)
      have calls3: "calls w3 = calls w @ cs @ [(?call, reply)]"
        by simp
      from call_client_frame [OF call] l1 l2 have logs3: "logs w3 = logs w @ l1 @ l2"
        by simp
      show ?thesis
      proof (cases reply)
        case (Returns mid)
        with run res Some prep Ready call have "w' = cleanup e [conv_path, temp_path] w3"
          by (simp add: send_autopost_to_chat_def)
        with calls3 raised not_cs Returns show ?thesis by simp
      next
        case (Raises y)
        with run res Some prep Ready call
        have out: "result = None"
          "w' = cleanup e [conv_path, temp_path] (logger_warning (handler y chat) w3)"
          by (simp_all add: send_autopost_to_chat_def)
        with calls3 raised not_cs Raises have same: "c = ?call" "x = y"
          by simp_all
        from out calls3 cs(2) send same Raises
        have "filter (is_send \<circ> fst) (drop (length (calls w)) (calls w')) = [(c, Raises x)]"
          by simp
        moreover from out logs3 same have "logs w' = logs w @ (l1 @ l2) @ [(WARNING, handler x chat)]"
          by simp
        ultimately show ?thesis
          using out(1) by blast
      qed
    qed
  qed
qed

theorem send_autopost_raise_witness:
  "fst (send_autopost_to_chat refusing_client (IntRef (- 1001)) post_text world_empty) = None
   \<and> calls (snd (send_autopost_to_chat refusing_client (IntRef (- 1001)) post_text world_empty)) =
        [(SendMessage (- 1001) ''Coucou'' None, Raises RPCError)]
   \<and> logs (snd (send_autopost_to_chat refusing_client (IntRef (- 1001)) post_text world_empty)) =
        [(WARNING, RPCErrorIn (- 1001))]"
proof -
  let ?w = "\<lparr>tick = 1, calls = [(SendMessage (- 1001) ''Coucou'' None, Raises RPCError)],
     logs = [(WARNING, RPCErrorIn (- 1001))], files = {}, db = db_init\<rparr>"
  have run: "send_autopost_to_chat refusing_client (IntRef (- 1001)) post_text world_empty = (None, ?w)"
    by (simp add: send_autopost_to_chat_def resolve_chat_id_def prepare_media_def dispatch_call_def
        call_client_def logger_warning_def post_text_def world_empty_def refusing_client_def
        str_or_def kb_def lower_text Let_def)
  have raised: "(SendMessage (- 1001) ''Coucou'' None, Raises RPCError)
      \<in> set (drop (length (calls world_empty)) (calls ?w))"
    by (simp add: world_empty_def)
  from send_autopost_raise_returns_None_no_retry [OF run raised] run
  show ?thesis by simp
qed

text \<open>
  C7, as amended. For a post whose type requires media, if the media fetch returns \<open>None\<close>
  then \<open>_send_autopost_to_chat\<close> returns \<open>None\<close> and makes no dispatch call: the only calls
  of the channel client during the delivery are those of the channel resolution before the
  fetch (a \<open>get_chat\<close> lookup for a handle), and there is none for a numeric reference.
\<close>

theorem media_unavailable_no_dispatch:
  assumes kind: "lower (str_or (cfg_type post) ''text'') \<in> set [''photo'', ''video'', ''voice'', ''document'']"
    and res: "resolve_chat_id e chat_ref w = (r, w1)"
    and fetch: "fst (download_if_url e (cfg_media post) w1) = None"
  shows "fst (send_autopost_to_chat e chat_ref post w) = None
       \<and> calls (snd (send_autopost_to_chat e chat_ref post w)) = calls w1
       \<and> filter (is_send \<circ> fst)
            (drop (length (calls w)) (calls (snd (send_autopost_to_chat e chat_ref post w)))) = []
       \<and> (\<forall>n. chat_ref = IntRef n \<longrightarrow>
            calls (snd (send_autopost_to_chat e chat_ref post w)) = calls w)"
proof -
  let ?ptype = "lower (str_or (cfg_type post) ''text'')"
  from resolve_chat_id_frame(3) [OF res] obtain cs where
    cs: "calls w1 = calls w @ cs" "filter (is_send \<circ> fst) cs = []"
    by blast
  have int: "calls w1 = calls w" if "chat_ref = IntRef n" for n
    using res that by (simp add: resolve_chat_id_int)
  have out: "fst (send_autopost_to_chat e chat_ref post w) = None
      \<and> calls (snd (send_autopost_to_chat e chat_ref post w)) = calls w1"
  proof (cases r)
    case None
    with res show ?thesis
      by (simp add: send_autopost_to_chat_def)
  next
    case (Some chat)
    obtain w0 where d: "download_if_url e (cfg_media post) w1 = (None, w0)"
      using fetch by (cases "download_if_url e (cfg_media post) w1") simp
    from download_if_url_frame(2) [OF d] have "calls w0 = calls w1" .
    moreover from kind d have "prepare_media e post ?ptype w1 =
        (Aborted, None, None, logger_warning (MediaNotFound (cfg_name post)) w0)"
      by (simp add: prepare_media_def)
    ultimately show ?thesis
      using res Some by (simp add: send_autopost_to_chat_def)
  qed
  moreover from out cs have "filter (is_send \<circ> fst)
      (drop (length (calls w)) (calls (snd (send_autopost_to_chat e chat_ref post w)))) = []"
    by simp
  moreover from out int have "\<forall>n. chat_ref = IntRef n \<longrightarrow>
      calls (snd (send_autopost_to_chat e chat_ref post w)) = calls w"
    by metis
  ultimately show ?thesis
    by blast
qed

theorem media_unavailable_witness:
  "lower (str_or (cfg_type post_photo_missing) ''text'') \<in> set [''photo'', ''video'', ''voice'', ''document'']
   \<and> resolve_chat_id calm (IntRef (- 1001)) world_empty = (Some (- 1001), world_empty)
   \<and> fst (download_if_url calm (cfg_media post_photo_missing) world_empty) = None
   \<and> fst (send_autopost_to_chat calm (IntRef (- 1001)) post_photo_missing world_empty) = None
   \<and> calls (snd (send_autopost_to_chat calm (IntRef (- 1001)) post_photo_missing world_empty)) = []"
proof -
  have kind: "lower (str_or (cfg_type post_photo_missing) ''text'')
      \<in> set [''photo'', ''video'', ''voice'', ''document'']"
    by (simp add: post_photo_missing_def post_photo_url_def str_or_def lower_photo)
  have res: "resolve_chat_id calm (IntRef (- 1001)) world_empty = (Some (- 1001), world_empty)"
    by (rule resolve_chat_id_int)
  have fetch: "fst (download_if_url calm (cfg_media post_photo_missing) world_empty) = None"
    by (simp add: download_if_url_def post_photo_missing_def)
  have "calls world_empty = []"
    by (simp add: world_empty_def)
  with media_unavailable_no_dispatch [OF kind res fetch] kind res fetch
  show ?thesis by simp
qed

text \<open>
  C7 as stated fails for a handle: the channel client is called, to resolve it, before
  the media is fetched.
\<close>

theorem media_unavailable_lookup_call:
  "fst (download_if_url calm (cfg_media post_photo_missing)
         (snd (resolve_chat_id calm (StrRef ''@lisa'') world_empty))) = None
   \<and> fst (send_autopost_to_chat calm (StrRef ''@lisa'') post_photo_missing world_empty) = None
   \<and> calls world_empty = []
   \<and> calls (snd (send_autopost_to_chat calm (StrRef ''@lisa'') post_photo_missing world_empty)) =
        [(GetChat ''@lisa'', Returns (- 1001))]"
  by (simp add: send_autopost_to_chat_def resolve_chat_id_def prepare_media_def download_if_url_def
      call_client_def logger_warning_def post_photo_missing_def post_photo_url_def world_empty_def
      calm_def str_or_def kb_def lower_photo lstrip_minus_def isdigit_def Let_def)

lemma cleanup_removes_temp_path:
  assumes "p \<notin> protected e" and "p \<noteq> []"
  shows "p \<notin> files (cleanup e [conv_path, Some p] w)"
  using assms by (cases conv_path) (simp_all add: os_remove_def)

lemma isabs_nonempty: "isabs p \<Longrightarrow> p \<noteq> []"
  by (auto simp: isabs_def startswith_def)

lemma prepare_media_local:
  assumes kind: "ptype \<in> set [''photo'', ''video'', ''voice'', ''document'']"
    and media: "cfg_media post = Some p" and local: "\<not> is_url p" and abs: "isabs p"
  shows "\<exists>media_path conv_path w2.
    prepare_media e post ptype w = (Ready media_path, conv_path, Some p, w2)"
proof -
  from abs have "p \<noteq> []"
    by (rule isabs_nonempty)
  with media local have d: "download_if_url e (cfg_media post) w = (Some p, w)"
    by (simp add: download_if_url_def)
  obtain ci wi where i: "convert_image_if_needed e p w = (ci, wi)"
    by (cases "convert_image_if_needed e p w")
  obtain cv wv where v: "convert_video_if_needed e p w = (cv, wv)"
    by (cases "convert_video_if_needed e p w")
  show ?thesis
    using kind d i v abs \<open>p \<noteq> []\<close> by (simp add: prepare_media_def Let_def)
qed

lemma resolve_none_files:
  assumes "resolve_chat_id e chat_ref w = (None, w1)"
  shows "files (snd (send_autopost_to_chat e chat_ref post w)) = files w"
  using assms resolve_chat_id_frame(2) [OF assms] by (simp add: send_autopost_to_chat_def)

text \<open>
  C9, as amended. For a post whose type requires media and whose media is a local
  absolute path (not a URL) that \<open>os.remove\<close> can remove: when the channel reference
  resolves, \<open>_send_autopost_to_chat\<close> leaves no file at that path when it returns, whether
  the send succeeded or raised; when the channel reference does not resolve, it returns
  before the \<open>try\<close> block and leaves the files on disk as they were.
\<close>

theorem local_absolute_media_removed:
  assumes kind: "lower (str_or (cfg_type post) ''text'') \<in> set [''photo'', ''video'', ''voice'', ''document'']"
    and media: "cfg_media post = Some p" and local: "\<not> is_url p" and abs: "isabs p"
    and removable: "p \<notin> protected e"
  shows "(case fst (resolve_chat_id e chat_ref w) of
           Some chat \<Rightarrow> p \<notin> files (snd (send_autopost_to_chat e chat_ref post w))
         | None \<Rightarrow> files (snd (send_autopost_to_chat e chat_ref post w)) = files w)"
proof -
  let ?ptype = "lower (str_or (cfg_type post) ''text'')"
  obtain r w1 where res: "resolve_chat_id e chat_ref w = (r, w1)"
    by (cases "resolve_chat_id e chat_ref w")
  show ?thesis
  proof (cases r)
    case None
    with res resolve_none_files [of e chat_ref w w1 post] show ?thesis
      by simp
  next
    case (Some chat)
    from prepare_media_local [OF kind media local abs] obtain media_path conv_path w2 where
      prep: "prepare_media e post ?ptype w1 = (Ready media_path, conv_path, Some p, w2)"
      by blast
    let ?call = "dispatch_call ?ptype chat media_path (str_or (cfg_text post) []) (kb (cfg_buttons post))"
    obtain reply w3 where call: "call_client e ?call w2 = (reply, w3)"
      by (cases "call_client e ?call w2")
    have "snd (send_autopost_to_chat e chat_ref post w) =
        cleanup e [conv_path, Some p]
          (case reply of Returns mid \<Rightarrow> w3 | Raises x \<Rightarrow> logger_warning (handler x chat) w3)"
      using res Some prep call by (cases reply) (simp_all add: send_autopost_to_chat_def)
    then have "p \<notin> files (snd (send_autopost_to_chat e chat_ref post w))"
      using cleanup_removes_temp_path [OF removable isabs_nonempty [OF abs]] by simp
    with res Some show ?thesis
      by simp
  qed
qed

lemma photo_local_kind:
  "lower (str_or (cfg_type post_photo_local) ''text'') \<in> set [''photo'', ''video'', ''voice'', ''document'']"
  by (simp add: post_photo_local_def post_photo_url_def str_or_def lower_photo)

theorem local_absolute_media_witness:
  "''/srv/media/IMG_7602.jpg'' \<in> files world_with_file
   \<and> fst (send_autopost_to_chat calm (IntRef (- 1001)) post_photo_local world_with_file) = Some 77
   \<and> ''/srv/media/IMG_7602.jpg''
        \<notin> files (snd (send_autopost_to_chat calm (IntRef (- 1001)) post_photo_local world_with_file))
   \<and> fst (send_autopost_to_chat refusing_client (IntRef (- 1001)) post_photo_local world_with_file) = None
   \<and> ''/srv/media/IMG_7602.jpg''
        \<notin> files (snd (send_autopost_to_chat refusing_client (IntRef (- 1001)) post_photo_local
              world_with_file))"
proof -
  have media: "cfg_media post_photo_local = Some ''/srv/media/IMG_7602.jpg''"
    by (simp add: post_photo_local_def)
  have local: "\<not> is_url ''/srv/media/IMG_7602.jpg''" and abs: "isabs ''/srv/media/IMG_7602.jpg''"
    by (simp_all add: is_url_def isabs_def startswith_def)
  have free: "''/srv/media/IMG_7602.jpg'' \<notin> protected calm"
    "''/srv/media/IMG_7602.jpg'' \<notin> protected refusing_client"
    by (simp_all add: calm_def refusing_client_def)
  have there: "''/srv/media/IMG_7602.jpg'' \<in> files world_with_file"
    by (simp add: world_with_file_def world_empty_def)
  have sent: "fst (send_autopost_to_chat calm (IntRef (- 1001)) post_photo_local world_with_file) = Some 77"
    by (simp add: send_autopost_to_chat_def resolve_chat_id_def prepare_media_def download_if_url_def
        convert_image_if_needed_def dispatch_call_def call_client_def post_photo_local_def
        post_photo_url_def world_with_file_def world_empty_def calm_def str_or_def or_None_def kb_def
        lower_photo is_url_def isabs_def startswith_def Let_def)
  have failed: "fst (send_autopost_to_chat refusing_client (IntRef (- 1001)) post_photo_local
      world_with_file) = None"
    by (simp add: send_autopost_to_chat_def resolve_chat_id_def prepare_media_def download_if_url_def
        convert_image_if_needed_def dispatch_call_def call_client_def post_photo_local_def
        post_photo_url_def world_with_file_def world_empty_def refusing_client_def str_or_def
        or_None_def kb_def lower_photo is_url_def isabs_def startswith_def Let_def)
  from local_absolute_media_removed [OF photo_local_kind media local abs free(1),
      of "IntRef (- 1001)" world_with_file]
    local_absolute_media_removed [OF photo_local_kind media local abs free(2),
      of "IntRef (- 1001)" world_with_file]
    there sent failed
  show ?thesis by (simp add: resolve_chat_id_int)
qed

text \<open>
  C9 as stated fails when the channel reference does not resolve: the function returns
  before the \<open>try\<close> block, and the file is still there.
\<close>

theorem local_absolute_media_survives_failed_lookup:
  "cfg_media post_photo_local = Some ''/srv/media/IMG_7602.jpg''
   \<and> ''/srv/media/IMG_7602.jpg'' \<in> files world_with_file
   \<and> fst (send_autopost_to_chat refusing_client (StrRef ''@lisa'') post_photo_local world_with_file) = None
   \<and> ''/srv/media/IMG_7602.jpg''
        \<in> files (snd (send_autopost_to_chat refusing_client (StrRef ''@lisa'') post_photo_local
              world_with_file))"
  by (simp add: send_autopost_to_chat_def resolve_chat_id_def call_client_def logger_warning_def
      post_photo_local_def post_photo_url_def world_with_file_def world_empty_def refusing_client_def
      lstrip_minus_def isdigit_def Let_def)

text \<open>
  C6: every temporary file made during a delivery is removed before the delivery returns,
  on every exit path. It fails on the media-fetch failure path: \<open>_download_if_url\<close> writes
  the body to the \<open>mkstemp\<close> file, finds it smaller than 1024 bytes and returns \<open>None\<close>
  without removing the file; \<open>_send_autopost_to_chat\<close> then returns with \<open>temp_path\<close> still
  unset, and its \<open>finally\<close> clause removes nothing. The file was not there before the
  delivery and is there after it.
\<close>

theorem small_download_leaves_temp_file:
  "''/tmp/ap_dl_k3x9.jpg'' \<notin> files world_empty
   \<and> send_autopost_to_chat small_body (IntRef (- 1001)) post_photo_url world_empty =
       (None,
        \<lparr>tick = 1, calls = [],
         logs = [(WARNING, DownloadTooSmall
                    ''http://my-privatelink.com/wp-content/uploads/2025/12/IMG_7602.jpg''),
                 (WARNING, MediaNotFound ''post4'')],
         files = {''/tmp/ap_dl_k3x9.jpg''}, db = db_init\<rparr>)"
  by (simp add: send_autopost_to_chat_def resolve_chat_id_def prepare_media_def download_if_url_def
      logger_warning_def post_photo_url_def world_empty_def small_body_def calm_def str_or_def
      kb_def lower_photo is_url_def startswith_def Let_def)

text \<open>
  Where the fetch succeeds, the \<open>finally\<close> clause does its work: it removes \<open>conv_path\<close> and
  \<open>temp_path\<close>, and a delivery that downloaded its photo leaves the disk as it found it.
\<close>

lemma cleanup_removes_both:
  assumes "c \<notin> protected e" "t \<notin> protected e" "c \<noteq> []" "t \<noteq> []"
  shows "c \<notin> files (cleanup e [Some c, Some t] w) \<and> t \<notin> files (cleanup e [Some c, Some t] w)"
  using assms by (auto simp: os_remove_def)

lemma large_download_is_cleaned:
  "send_autopost_to_chat calm (IntRef (- 1001)) post_photo_url world_empty =
     (Some 77,
      \<lparr>tick = 3,
       calls = [(SendPhoto (- 1001) (Some ''/tmp/ap_dl_k3x9.jpg'')
                   (Some ''Ne me fait pas attendre...'') None, Returns 77)],
       logs = [], files = {}, db = db_init\<rparr>)"
  by (simp add: send_autopost_to_chat_def resolve_chat_id_def prepare_media_def download_if_url_def
      convert_image_if_needed_def dispatch_call_def call_client_def os_remove_def
      post_photo_url_def world_empty_def calm_def str_or_def or_None_def kb_def
      lower_photo is_url_def isabs_def startswith_def Let_def)

lemma send_autopost_db: "db (snd (send_autopost_to_chat e chat_ref post w)) = db w"
proof -
  let ?ptype = "lower (str_or (cfg_type post) ''text'')"
  obtain r w1 where res: "resolve_chat_id e chat_ref w = (r, w1)"
    by (cases "resolve_chat_id e chat_ref w")
  note w1 = resolve_chat_id_frame(1) [OF res]
  show ?thesis
  proof (cases r)
    case None
    with res w1 show ?thesis
      by (simp add: send_autopost_to_chat_def)
  next
    case (Some chat)
    obtain p conv_path temp_path w2 where
      prep: "prepare_media e post ?ptype w1 = (p, conv_path, temp_path, w2)"
      by (cases "prepare_media e post ?ptype w1")
    note w2 = prepare_media_frame(1) [OF prep]
    show ?thesis
    proof (cases p)
      case Aborted
      with res Some prep w1 w2 show ?thesis
        by (simp add: send_autopost_to_chat_def)
    next
      case (Ready media_path)
      let ?call = "dispatch_call ?ptype chat media_path (str_or (cfg_text post) []) (kb (cfg_buttons post))"
      obtain reply w3 where call: "call_client e ?call w2 = (reply, w3)"
        by (cases "call_client e ?call w2")
      from call_client_frame [OF call] w1 w2 have "db w3 = db w"
        by simp
      with res Some prep Ready call show ?thesis
        by (cases reply) (simp_all add: send_autopost_to_chat_def)
    qed
  qed
qed

text \<open>
  C1, as amended. In the loop over the channels, when \<open>_send_autopost_to_chat\<close> returns a
  message id other than 0, the channel reference is resolved again. When it resolves,
  exactly one row is appended to the ledger: a fresh key, the chat id of that second
  resolution, the message id, and \<open>delete_at\<close> the unix timestamp (truncated to seconds) of
  the wall-clock time \<open>AUTO_DELETE_AFTER_DAYS\<close> days after the clock reading taken once
  the delivery has returned. When it does not resolve, no row is written. The rows that
  were there stay as they are, and the delivery is counted as sent in both cases.
\<close>

theorem delivery_enqueues_one_row:
  assumes delivered: "send_autopost_to_chat e raw_ref post w = (Some mid, w1)"
    and nonzero: "mid \<noteq> 0"
  shows "fst (post_to_channel e post raw_ref (sent, w)) = Suc sent
       \<and> rows (db (snd (post_to_channel e post raw_ref (sent, w)))) =
           (case fst (resolve_chat_id e raw_ref (w1\<lparr>tick := Suc (tick w1)\<rparr>)) of
              Some chat \<Rightarrow>
                rows (db w) @
                  [\<lparr>row_id = next_row_id (db w), chat_id = chat, message_id = mid,
                    delete_at = delete_at_of (TIMEZONE e) (AUTO_DELETE_AFTER_DAYS e)
                                  (clock e (tick w1))\<rparr>]
            | None \<Rightarrow> rows (db w))"
proof -
  from send_autopost_db [of e raw_ref post w] delivered have w1: "db w1 = db w"
    by simp
  obtain c w2 where again: "resolve_chat_id e raw_ref (w1\<lparr>tick := Suc (tick w1)\<rparr>) = (c, w2)"
    by (cases "resolve_chat_id e raw_ref (w1\<lparr>tick := Suc (tick w1)\<rparr>)")
  from resolve_chat_id_frame(1) [OF again] w1 have "db w2 = db w"
    by simp
  with delivered nonzero again show ?thesis
    by (cases c) (simp_all add: post_to_channel_def Let_def db_schedule_deletion_def)
qed

text \<open>
  No row is written when the delivery returns \<open>None\<close> or the id 0, or when the second
  resolution fails.
\<close>

lemma post_to_channel_no_row:
  assumes "fst (send_autopost_to_chat e raw_ref post w) = None
      \<or> fst (send_autopost_to_chat e raw_ref post w) = Some 0
      \<or> fst (resolve_chat_id e raw_ref
            ((snd (send_autopost_to_chat e raw_ref post w))
               \<lparr>tick := Suc (tick (snd (send_autopost_to_chat e raw_ref post w)))\<rparr>)) = None"
  shows "db (snd (post_to_channel e post raw_ref (sent, w))) = db w"
proof -
  obtain m w1 where d: "send_autopost_to_chat e raw_ref post w = (m, w1)"
    by (cases "send_autopost_to_chat e raw_ref post w")
  from send_autopost_db [of e raw_ref post w] d have w1: "db w1 = db w"
    by simp
  obtain c w2 where r: "resolve_chat_id e raw_ref (w1\<lparr>tick := Suc (tick w1)\<rparr>) = (c, w2)"
    by (cases "resolve_chat_id e raw_ref (w1\<lparr>tick := Suc (tick w1)\<rparr>)")
  from resolve_chat_id_frame(1) [OF r] w1 have w2: "db w2 = db w"
    by simp
  from assms d r w1 w2 show ?thesis
    by (auto simp: post_to_channel_def Let_def split: option.splits)
qed

text \<open>In a zone of fixed offset, \<open>delete_at\<close> is the reading plus 86400 seconds a day.\<close>

lemma delete_at_fixed_offset:
  assumes "\<And>s. utcoffset_at tz s = off" and "\<And>l. utcoffset_wall tz l = off"
  shows "delete_at_of tz days t = int_of_seconds (t + days * 86400000000)"
  by (simp add: delete_at_of_def timestamp_def datetime_now_def assms wall_plus_days wall_roundtrip)

theorem delivery_enqueues_witness:
  "send_autopost_to_chat calm (StrRef ''@lisa'') post_text world_empty =
     (Some 77,
      \<lparr>tick = 2, calls = [(GetChat ''@lisa'', Returns (- 1001)),
                           (SendMessage (- 1001) ''Coucou'' None, Returns 77)],
       logs = [], files = {}, db = db_init\<rparr>)
   \<and> fst (post_to_channel calm post_text (StrRef ''@lisa'') (0, world_empty)) = 1
   \<and> rows (db (snd (post_to_channel calm post_text (StrRef ''@lisa'') (0, world_empty)))) =
        [\<lparr>row_id = 1, chat_id = - 1001, message_id = 77, delete_at = 1743847200\<rparr>]"
proof -
  let ?w1 = "\<lparr>tick = 2, calls = [(GetChat ''@lisa'', Returns (- 1001)),
      (SendMessage (- 1001) ''Coucou'' None, Returns 77)], logs = [], files = {}, db = db_init\<rparr>"
  let ?w2 = "\<lparr>tick = 4, calls = [(GetChat ''@lisa'', Returns (- 1001)),
      (SendMessage (- 1001) ''Coucou'' None, Returns 77), (GetChat ''@lisa'', Returns (- 1001))],
      logs = [], files = {}, db = db_init\<rparr>"
  have delivered: "send_autopost_to_chat calm (StrRef ''@lisa'') post_text world_empty = (Some 77, ?w1)"
    by (simp add: send_autopost_to_chat_def resolve_chat_id_def prepare_media_def dispatch_call_def
        call_client_def post_text_def world_empty_def calm_def str_or_def kb_def lower_text
        lstrip_minus_def isdigit_def Let_def)
  have again: "resolve_chat_id calm (StrRef ''@lisa'') (?w1\<lparr>tick := Suc (tick ?w1)\<rparr>) = (Some (- 1001), ?w2)"
    by (simp add: resolve_chat_id_def call_client_def calm_def lstrip_minus_def isdigit_def Let_def)
  have due: "delete_at_of (TIMEZONE calm) (AUTO_DELETE_AFTER_DAYS calm) (clock calm (tick ?w1)) = 1743847200"
    by (simp add: delete_at_of_def timestamp_def int_of_seconds_def plus_days_def calm_def
        paris_saturday_noon wall_of_datetime_def) (simp add: europe_paris_def)
  have key: "next_row_id (db world_empty) = 1"
    by (simp add: next_row_id_def world_empty_def db_init_def)
  have none: "rows (db world_empty) = []"
    by (simp add: world_empty_def db_init_def)
  from delivery_enqueues_one_row [OF delivered, of 0] delivered again due key none
  show ?thesis by simp
qed

text \<open>
  C1 as stated fails when the lookup of the handle, made a second time after the send,
  fails: the delivery has returned the message id 77 and the ledger has no row for it.
\<close>

theorem delivery_without_row:
  "fst (send_autopost_to_chat flaky_lookup (StrRef ''@lisa'') post_text world_empty) = Some 77
   \<and> rows (db world_empty) = []
   \<and> rows (db (snd (post_to_channel flaky_lookup post_text (StrRef ''@lisa'') (0, world_empty)))) = []"
  by (simp add: post_to_channel_def send_autopost_to_chat_def resolve_chat_id_def prepare_media_def
      dispatch_call_def call_client_def logger_warning_def post_text_def world_empty_def
      flaky_lookup_def calm_def db_init_def str_or_def kb_def lower_text lstrip_minus_def isdigit_def
      Let_def)

end
